theory Spec2Isabelle
  imports Main
begin

section \<open>Data model of \<open>src/rendering/rendering.ts\<close>\<close>

text \<open>
  JavaScript objects are compared by identity (\<open>===\<close>) and are used as keys of the
  module's \<open>WeakMap\<close> caches. Every object whose identity the code observes therefore
  carries its address (a \<open>ref\<close>) next to its contents; \<open>===\<close> on two objects of the
  same kind compares the addresses only.
\<close>

type_synonym ref = nat

text \<open>Attribute values (\<open>any\<close> in the source). \<open>isEqual\<close> of the document package is
  deep value equality, which is HOL equality on this type.\<close>

datatype JsValue = JBool bool | JNum int | JStr string

text \<open>\<open>AttributeMap\<close>: an object with identity; \<open>entries\<close> lists its own properties in
  the order \<open>Object.keys\<close> enumerates them.\<close>

record AttributeMap =
  aref :: ref
  entries :: "(string \<times> JsValue) list"

text \<open>An operation of a line's content run: \<open>insert\<close> is a string or an embed object.\<close>

datatype Insert = InsStr string | InsEmbed AttributeMap

record Op =
  op_insert :: Insert
  op_attributes :: "AttributeMap option"

record Line =
  lref :: ref
  lid :: string
  attributes :: AttributeMap
  content :: "Op list"

text \<open>A \<open>Line[]\<close> array object: its identity and its elements.\<close>

record LineArr =
  arr_ref :: ref
  items :: "Line list"

text \<open>\<open>CombinedEntry = Line | Line[]\<close>.\<close>

datatype CombinedEntry = Single Line | Multi LineArr

type_synonym Combined = "CombinedEntry list"

section \<open>Range diff\<close>

text \<open>
  \<open>isSame\<close>: \<open>oldEntry === newEntry\<close>, or both are arrays of the same length whose
  members are pairwise identical. A \<open>Line\<close> and an array are never the same object.
\<close>

fun isSame :: "CombinedEntry \<Rightarrow> CombinedEntry \<Rightarrow> bool" where
  "isSame (Single a) (Single b) = (lref a = lref b)"
| "isSame (Multi a) (Multi b) =
     (arr_ref a = arr_ref b \<or>
      (length (items a) = length (items b) \<and>
       list_all2 (\<lambda>x y. lref x = lref y) (items a) (items b)))"
| "isSame (Single a) (Multi b) = False"
| "isSame (Multi a) (Single b) = False"

text \<open>The first loop of \<open>getChangedRanges\<close>:
  \<^verbatim>\<open>for (let i = 0; i < minLength; i++) if (!isSame(oldC[i], newC[i])) { oldStart = newStart = i; break; }\<close>
  The pair carried along is \<open>(oldStart, newStart)\<close>.\<close>

function frontLoop ::
  "Combined \<Rightarrow> Combined \<Rightarrow> nat \<Rightarrow> nat \<Rightarrow> nat \<times> nat \<Rightarrow> nat \<times> nat" where
  "frontLoop oldC newC minLength i starts =
     (if i < minLength then
        (if \<not> isSame (oldC ! i) (newC ! i) then (i, i)
         else frontLoop oldC newC minLength (i + 1) starts)
      else starts)"
  by pat_completeness auto
termination
  by (relation "measure (\<lambda>(oldC, newC, minLength, i, starts). minLength - i)") auto

declare frontLoop.simps [simp del]

text \<open>The second loop:
  \<^verbatim>\<open>for (let i = 0; i < minLength; i++)
    if (!isSame(oldC[oldLength - i - 1], newC[newLength - i - 1])) { oldEnd = oldLength - i; newEnd = newLength - i; break; }\<close>
  The pair carried along is \<open>(oldEnd, newEnd)\<close>.\<close>

function backLoop ::
  "Combined \<Rightarrow> Combined \<Rightarrow> nat \<Rightarrow> nat \<Rightarrow> nat \<times> nat \<Rightarrow> nat \<times> nat" where
  "backLoop oldC newC minLength i ends =
     (if i < minLength then
        (if \<not> isSame (oldC ! (length oldC - i - 1)) (newC ! (length newC - i - 1))
         then (length oldC - i, length newC - i)
         else backLoop oldC newC minLength (i + 1) ends)
      else ends)"
  by pat_completeness auto
termination
  by (relation "measure (\<lambda>(oldC, newC, minLength, i, ends). minLength - i)") auto

declare backLoop.simps [simp del]

text \<open>\<open>getChangedRanges\<close> returns \<open>[[oldStart, oldEnd], [newStart, newEnd]]\<close>.\<close>

definition getChangedRanges :: "Combined \<Rightarrow> Combined \<Rightarrow> (nat \<times> nat) \<times> (nat \<times> nat)" where
  "getChangedRanges oldC newC =
     (let oldLength = length oldC;
          newLength = length newC;
          minLength = min oldLength newLength;
          (oldStart, newStart) = frontLoop oldC newC minLength 0 (0, 0);
          (oldEnd, newEnd) = backLoop oldC newC minLength 0 (0, 0)
      in ((oldStart, oldEnd), (newStart, newEnd)))"

section \<open>Virtual nodes and the typeset\<close>

text \<open>
  A \<open>VNode\<close> has a type (tag), props, children and an optional key; a \<open>VChild\<close> is a
  string or a \<open>VNode\<close>. The props object is the list of its own properties in the
  order they were set, each name once.
\<close>

datatype VNode = VNode (vtype: string) (props: "(string \<times> JsValue) list")
                       (children: "VChild list") (key: "string option")
  and VChild = Str string | Node VNode

text \<open>
  The render callbacks of the typeset receive \<open>editor\<close> and \<open>forHTML\<close> as their last
  arguments; both are fixed during a render pass, and the callbacks are modelled as
  already applied to them. A missing callback is \<open>None\<close>.
\<close>

record LineType =
  lrender :: "(AttributeMap \<Rightarrow> VChild list \<Rightarrow> VNode) option"
  renderMultiple :: "((AttributeMap \<times> VChild list \<times> string) list \<Rightarrow> VNode) option"
  shouldCombine :: "(AttributeMap \<Rightarrow> AttributeMap \<Rightarrow> bool) option"

text \<open>A format's \<open>render\<close> may return no node (the source tests \<open>if (node)\<close>).\<close>

record FormatType =
  fname :: string
  frender :: "(AttributeMap \<Rightarrow> VChild list \<Rightarrow> VNode option) option"

record EmbedType =
  ename :: string
  erender :: "(AttributeMap \<Rightarrow> VChild list \<Rightarrow> VNode) option"
  noFill :: bool

text \<open>
  The part of \<open>Editor\<close> that rendering reads. Line types and format types are objects
  compared by identity (\<open>!==\<close>, \<open>===\<close>), so the typeset hands out their addresses and
  \<open>lineTypes\<close>, \<open>formatTypes\<close> give the object stored at an address.
  \<open>lines_findByAttributes a\<close> is \<open>editor.typeset.lines.findByAttributes(a, true)\<close>,
  \<open>formats_get\<close> is \<open>formats.get\<close>, \<open>formats_priority\<close> is \<open>formats.priority\<close>,
  \<open>embeds_findByAttributes\<close> is \<open>embeds.findByAttributes\<close>; \<open>applyDecorations\<close> is the
  function of that name of the decorations module, returning the decorated node.
  \<open>lines_selector\<close> says which on-screen elements match the CSS selector
  \<open>editor.typeset.lines.selector\<close>; \<open>patch_insert\<close> belongs to the tree-patch primitive
  (see \<open>patchSlice\<close> below).
\<close>

record Editor =
  lineTypes :: "ref \<Rightarrow> LineType"
  lines_findByAttributes :: "AttributeMap \<Rightarrow> ref"
  formatTypes :: "ref \<Rightarrow> FormatType"
  formats_get :: "string \<Rightarrow> ref option"
  formats_priority :: "string \<Rightarrow> int"
  embeds_findByAttributes :: "AttributeMap \<Rightarrow> EmbedType option"
  applyDecorations :: "VNode \<Rightarrow> AttributeMap \<Rightarrow> VNode"
  lines_selector :: "VNode \<Rightarrow> bool"
  patch_insert :: "VNode list \<Rightarrow> VNode list \<Rightarrow> VNode list"

section \<open>The module's caches\<close>

record CombinedData =
  dref :: ref
  combined :: Combined
  byKey :: "string \<rightharpoonup> CombinedEntry"

text \<open>
  The \<open>WeakMap\<close>s \<open>linesType\<close> (keyed by an attribute map object), \<open>linesMultiples\<close>
  (keyed by a \<open>Line\<close> object) and \<open>linesCombined\<close> (keyed by a \<open>Line[]\<close> object), as
  maps from the key's address. \<open>nextRef\<close> is the address the next object created by
  this module gets.
\<close>

record Caches =
  linesType :: "ref \<rightharpoonup> ref"
  linesMultiples :: "ref \<rightharpoonup> LineArr"
  linesCombined :: "ref \<rightharpoonup> CombinedData"
  nextRef :: ref

text \<open>\<open>getLineType\<close>: the cached type of the line's attribute map, else the type the
  typeset finds, which is then cached.\<close>

definition getLineType :: "Editor \<Rightarrow> Line \<Rightarrow> Caches \<Rightarrow> ref \<times> Caches" where
  "getLineType editor line c =
     (case linesType c (aref (attributes line)) of
        Some type \<Rightarrow> (type, c)
      | None \<Rightarrow>
          (let type = lines_findByAttributes editor (attributes line)
           in (type, c\<lparr>linesType := (linesType c)(aref (attributes line) \<mapsto> type)\<rparr>)))"

section \<open>Line grouper\<close>

text \<open>A new empty array \<open>[]\<close>.\<close>

definition newArr :: "Caches \<Rightarrow> LineArr \<times> Caches" where
  "newArr c = (\<lparr>arr_ref = nextRef c, items = []\<rparr>, c\<lparr>nextRef := nextRef c + 1\<rparr>)"

text \<open>
  Closing a group (lines 155 to 160 of the source):
  \<^verbatim>\<open>const last = linesMultiples.get(collect[0]);
  if (last && last.length === collect.length && collect.every((v, i) => last[i] === v)) collect = last;
  else linesMultiples.set(collect[0], collect);\<close>
  The result is the array that is pushed; \<open>last0\<close> stands for the source's \<open>last\<close>.
  \<open>collect\<close> holds at least the line just pushed.
\<close>

definition every_same :: "Line list \<Rightarrow> Line list \<Rightarrow> bool" where
  "every_same collect last0 = list_all2 (\<lambda>v w. lref w = lref v) collect last0"

definition closeGroup :: "LineArr \<Rightarrow> Caches \<Rightarrow> LineArr \<times> Caches" where
  "closeGroup collect c =
     (case linesMultiples c (lref (hd (items collect))) of
        Some last0 \<Rightarrow>
          if length (items last0) = length (items collect)
             \<and> every_same (items collect) (items last0)
          then (last0, c)
          else (collect, c\<lparr>linesMultiples :=
                  (linesMultiples c)(lref (hd (items collect)) \<mapsto> collect)\<rparr>)
      | None \<Rightarrow>
          (collect, c\<lparr>linesMultiples :=
                  (linesMultiples c)(lref (hd (items collect)) \<mapsto> collect)\<rparr>))"

text \<open>The variables of \<open>combineLines\<close> that its \<open>forEach\<close> callback updates.\<close>

record CombineState =
  st_combined :: Combined
  st_byKey :: "string \<rightharpoonup> CombinedEntry"
  st_collect :: LineArr
  st_caches :: Caches

text \<open>
  The condition
  \<^verbatim>\<open>!next || getLineType(editor, next) !== type || !type.shouldCombine(collect[0].attributes, next.attributes)\<close>
  evaluated left to right; \<open>getLineType\<close> is only called when there is a next line.
\<close>

definition groupEnds ::
  "Editor \<Rightarrow> ref \<Rightarrow> (AttributeMap \<Rightarrow> AttributeMap \<Rightarrow> bool) \<Rightarrow> LineArr \<Rightarrow> Line option \<Rightarrow> Caches
     \<Rightarrow> bool \<times> Caches" where
  "groupEnds editor type sc collect next c =
     (case next of
        None \<Rightarrow> (True, c)
      | Some n \<Rightarrow>
          (let (ntype, c') = getLineType editor n c
           in (ntype \<noteq> type \<or> \<not> sc (attributes (hd (items collect))) (attributes n), c')))"

text \<open>The body of the \<open>forEach\<close> callback for \<open>line\<close>, with \<open>next = lines[i + 1]\<close>.\<close>

definition combineStep :: "Editor \<Rightarrow> Line \<Rightarrow> Line option \<Rightarrow> CombineState \<Rightarrow> CombineState" where
  "combineStep editor line next s =
     (let (type, c1) = getLineType editor line (st_caches s)
      in case shouldCombine (lineTypes editor type) of
           Some sc \<Rightarrow>
             (let collect = (st_collect s)\<lparr>items := items (st_collect s) @ [line]\<rparr>;
                  (ends, c2) = groupEnds editor type sc collect next c1
              in if ends then
                   (let (unit, c3) = closeGroup collect c2;
                        (fresh, c4) = newArr c3
                    in s\<lparr>st_combined := st_combined s @ [Multi unit],
                         st_byKey := (st_byKey s)(lid (hd (items unit)) \<mapsto> Multi unit),
                         st_collect := fresh,
                         st_caches := c4\<rparr>)
                 else s\<lparr>st_collect := collect, st_caches := c2\<rparr>)
         | None \<Rightarrow>
             (case lrender (lineTypes editor type) of
                Some r \<Rightarrow> s\<lparr>st_combined := st_combined s @ [Single line],
                            st_byKey := (st_byKey s)(lid line \<mapsto> Single line),
                            st_caches := c1\<rparr>
              | None \<Rightarrow> s\<lparr>st_caches := c1\<rparr>))"

fun combineLoop :: "Editor \<Rightarrow> Line list \<Rightarrow> CombineState \<Rightarrow> CombineState" where
  "combineLoop editor [] s = s"
| "combineLoop editor (line # rest) s =
     combineLoop editor rest
       (combineStep editor line (case rest of [] \<Rightarrow> None | n # ns \<Rightarrow> Some n) s)"

text \<open>\<open>combineLines\<close>: the memoized result for this array object if there is one;
  otherwise the grouping is computed, stored under the array and returned.\<close>

definition combineLines :: "Editor \<Rightarrow> LineArr \<Rightarrow> Caches \<Rightarrow> CombinedData \<times> Caches" where
  "combineLines editor lines c =
     (case linesCombined c (arr_ref lines) of
        Some cache \<Rightarrow> (cache, c)
      | None \<Rightarrow>
          (let (collect, c0) = newArr c;
               s = combineLoop editor (items lines)
                     \<lparr>st_combined = [], st_byKey = Map.empty, st_collect = collect,
                      st_caches = c0\<rparr>;
               c1 = st_caches s;
               data = \<lparr>dref = nextRef c1, combined = st_combined s, byKey = st_byKey s\<rparr>
           in (data, c1\<lparr>linesCombined := (linesCombined c1)(arr_ref lines \<mapsto> data),
                        nextRef := nextRef c1 + 1\<rparr>)))"

section \<open>Inline composer\<close>

text \<open>
  Modelled from the spec: \<open>isEqual\<close> of the document package, which is not among the
  sources, applied to two props objects (\<open>isEqual(last.props, newChild.props)\<close>). The
  spec asks for "identical properties": the two objects have the same number of
  properties and every property of the first has an equal value in the second. The
  order in which the properties were set does not matter.
\<close>

definition propsEqual :: "(string \<times> JsValue) list \<Rightarrow> (string \<times> JsValue) list \<Rightarrow> bool" where
  "propsEqual a b = (length a = length b \<and> list_all (\<lambda>(k, v). map_of b k = Some v) a)"

text \<open>
  \<open>addOrMergeChild\<close> changes \<open>list\<close> (and the node \<open>last\<close>) in place; the model returns the
  list after the call. Within \<open>renderInline\<close> every child list has a single owner, so
  the list after the call is all a caller can observe.
\<close>

definition addOrMergeChild :: "VChild list \<Rightarrow> VChild \<Rightarrow> VChild list" where
  "addOrMergeChild list newChild =
     (if length list > 0 then
        (let index = length list - 1
         in case (list ! index, newChild) of
              (Node l, Node n) \<Rightarrow>
                if vtype l = vtype n \<and> propsEqual (props l) (props n)
                then list[index := Node (VNode (vtype l) (props l) (children l @ children n) (key l))]
                else list @ [newChild]
            | (Str l, Str n) \<Rightarrow> list[index := Str (l @ n)]
            | (Node l, Str n) \<Rightarrow> list @ [newChild]
            | (Str l, Node n) \<Rightarrow> list @ [newChild])
      else list @ [newChild])"

text \<open>\<open>combineChildren\<close>: \<open>None\<close> is \<open>undefined\<close>; the loop over \<open>b\<close> is a left fold.\<close>

fun combineChildren :: "VChild list option \<Rightarrow> VChild list option \<Rightarrow> VChild list" where
  "combineChildren None None = []"
| "combineChildren None (Some b) = b"
| "combineChildren (Some a) None = a"
| "combineChildren (Some a) (Some b) = foldl addOrMergeChild a b"

record InlineStackItem =
  itype :: ref
  iattributes :: AttributeMap
  icontent :: "VChild list option"

text \<open>The variables of \<open>renderInline\<close> that its closures update. \<open>activeStack\<close> is in
  array order: the last element is the top of the stack.\<close>

record InlineState =
  inlineChildren :: "VChild list"
  trailingBreak :: bool
  activeStack :: "InlineStackItem list"

text \<open>
  The \<open>while\<close> loop of \<open>collapseStack\<close>, on the stack and the local \<open>children\<close>:
  \<^verbatim>\<open>while (activeStack.length > from) {
    const item = activeStack.pop();
    if (!item || !item.type.render) break;
    children = combineChildren(item.content, children);
    const node = item.type.render(item.attributes, children, editor, forHTML)
    if (node) { nodeFormatType.set(node, item.type); children = [node]; }
  }\<close>
  \<open>nodeFormatType\<close> is written here and read nowhere in the module; it is left out.
\<close>

function collapseLoop ::
  "Editor \<Rightarrow> nat \<Rightarrow> InlineStackItem list \<Rightarrow> VChild list option
     \<Rightarrow> InlineStackItem list \<times> VChild list option" where
  "collapseLoop editor from stack chn =
     (if length stack > from then
        (let item = last stack; stack' = butlast stack
         in case frender (formatTypes editor (itype item)) of
              None \<Rightarrow> (stack', chn)
            | Some render \<Rightarrow>
                (let chn' = combineChildren (icontent item) chn
                 in case render (iattributes item) chn' of
                      Some node \<Rightarrow> collapseLoop editor from stack' (Some [Node node])
                    | None \<Rightarrow> collapseLoop editor from stack' (Some chn')))
      else (stack, chn))"
  by pat_completeness auto
termination
  by (relation "measure (\<lambda>(editor, from, stack, chn). length stack)") auto

declare collapseLoop.simps [simp del]

text \<open>\<open>collapseStack(from)\<close>: after the loop the children, if any, are pushed onto the
  final list (empty stack) or onto the content of the frame now on top.\<close>

definition collapseStack :: "Editor \<Rightarrow> nat \<Rightarrow> InlineState \<Rightarrow> InlineState" where
  "collapseStack editor from s =
     (let (stack, chn) = collapseLoop editor from (activeStack s) None
      in case chn of
           None \<Rightarrow> s\<lparr>activeStack := stack\<rparr>
         | Some cs \<Rightarrow>
             if length stack = 0
             then s\<lparr>inlineChildren := inlineChildren s @ cs, activeStack := stack\<rparr>
             else
               (let last0 = last stack;
                    last1 = (case icontent last0 of
                              Some c \<Rightarrow> last0\<lparr>icontent := Some (c @ cs)\<rparr>
                            | None \<Rightarrow> last0\<lparr>icontent := Some cs\<rparr>)
                in s\<lparr>activeStack := butlast stack @ [last1]\<rparr>))"

text \<open>\<open>insertStackItem(index, type, attributes)\<close>; \<open>attributes[name]\<close> is \<open>map_of\<close> on the
  entries, \<open>None\<close> for \<open>undefined\<close>.\<close>

definition insertStackItem ::
  "Editor \<Rightarrow> nat \<Rightarrow> ref \<Rightarrow> AttributeMap \<Rightarrow> InlineState \<Rightarrow> InlineState" where
  "insertStackItem editor index type attrs s =
     (let item = \<lparr>itype = type, iattributes = attrs, icontent = None\<rparr>
      in if index < length (activeStack s) then
           (let active = activeStack s ! index
            in if itype active = type
                  \<and> map_of (entries (iattributes active)) (fname (formatTypes editor (itype active)))
                      = map_of (entries attrs) (fname (formatTypes editor type))
               then s
               else (let s' = collapseStack editor index s
                     in s'\<lparr>activeStack := activeStack s' @ [item]\<rparr>))
         else s\<lparr>activeStack := activeStack s @ [item]\<rparr>)"

text \<open>The \<open>forEach\<close> over the sorted attribute names, with the counter \<open>stackIndex\<close>.\<close>

fun keysLoop ::
  "Editor \<Rightarrow> AttributeMap \<Rightarrow> string list \<Rightarrow> nat \<Rightarrow> InlineState \<Rightarrow> InlineState" where
  "keysLoop editor attrs [] stackIndex s = s"
| "keysLoop editor attrs (name # names) stackIndex s =
     (case formats_get editor name of
        None \<Rightarrow> keysLoop editor attrs names stackIndex s
      | Some type \<Rightarrow>
          (case frender (formatTypes editor type) of
             None \<Rightarrow> keysLoop editor attrs names stackIndex s
           | Some r \<Rightarrow>
               keysLoop editor attrs names (stackIndex + 1)
                 (insertStackItem editor stackIndex type attrs s)))"

text \<open>Strings are lists of code units; \<open>nbsp\<close> is \<open>\xA0\<close>.\<close>

definition nbsp :: char where
  "nbsp = CHR 0xA0"

text \<open>\<open>str.replace(/  /g, r)\<close>: every pair of spaces, found left to right without
  overlap, becomes \<open>r\<close>.\<close>

fun replacePairs :: "string \<Rightarrow> string \<Rightarrow> string" where
  "replacePairs r (a # b # cs) =
     (if a = CHR '' '' \<and> b = CHR '' '' then r @ replacePairs r cs
      else a # replacePairs r (b # cs))"
| "replacePairs r [a] = [a]"
| "replacePairs r [] = []"

text \<open>\<open>str.replace(/^ /, '\xA0')\<close> and \<open>str.replace(/ $/, '\xA0')\<close>.\<close>

definition replaceLeading :: "string \<Rightarrow> string" where
  "replaceLeading str =
     (case str of [] \<Rightarrow> [] | a # cs \<Rightarrow> if a = CHR '' '' then nbsp # cs else str)"

definition replaceTrailing :: "string \<Rightarrow> string" where
  "replaceTrailing str =
     (if str \<noteq> [] \<and> last str = CHR '' '' then butlast str @ [nbsp] else str)"

definition isEmbed :: "Op \<Rightarrow> bool" where
  "isEmbed op = (case op_insert op of InsEmbed e \<Rightarrow> True | InsStr t \<Rightarrow> False)"

definition startsWithSpace :: "Op \<Rightarrow> bool" where
  "startsWithSpace op =
     (case op_insert op of
        InsStr t \<Rightarrow> (case t of [] \<Rightarrow> False | a # cs \<Rightarrow> a = CHR '' '')
      | InsEmbed e \<Rightarrow> False)"

text \<open>The text of a string operation, between \<open>prev = array[i - 1]\<close> and
  \<open>next = array[i + 1]\<close>.\<close>

definition opText :: "Op option \<Rightarrow> string \<Rightarrow> Op option \<Rightarrow> string" where
  "opText prev t next =
     (let str = replacePairs [CHR '' '', nbsp] (replacePairs [nbsp, CHR '' ''] t);
          str1 = (if (case prev of None \<Rightarrow> True | Some p \<Rightarrow> isEmbed p)
                  then replaceLeading str else str)
      in if (case next of None \<Rightarrow> True | Some n \<Rightarrow> isEmbed n \<or> startsWithSpace n)
         then replaceTrailing str1 else str1)"

text \<open>The first half of the callback of \<open>delta.ops.forEach\<close>: the operation's own
  \<open>children\<close> and the new value of \<open>trailingBreak\<close>.\<close>

definition opChildren :: "Editor \<Rightarrow> Op option \<Rightarrow> Op \<Rightarrow> Op option \<Rightarrow> bool \<Rightarrow> VChild list \<times> bool" where
  "opChildren editor prev op next tb =
     (case op_insert op of
        InsStr t \<Rightarrow> ([Str (opText prev t next)], False)
      | InsEmbed e \<Rightarrow>
          (case embeds_findByAttributes editor e of
             None \<Rightarrow> ([], tb)
           | Some emb \<Rightarrow>
               (case erender emb of
                  None \<Rightarrow> ([], tb)
                | Some render \<Rightarrow>
                    ([Node (render e [])],
                     if ename emb = ''br'' then True
                     else if \<not> noFill emb then False else tb))))"

text \<open>The second half: with attributes, the frames are brought up to date and the
  children go to the frame on top of the stack, if there is one; without, the stack
  is collapsed and the children are merged into the final list.\<close>

definition renderOp :: "Editor \<Rightarrow> Op option \<Rightarrow> Op \<Rightarrow> Op option \<Rightarrow> InlineState \<Rightarrow> InlineState" where
  "renderOp editor prev op next s =
     (let (chn, tb) = opChildren editor prev op next (trailingBreak s);
          s1 = s\<lparr>trailingBreak := tb\<rparr>
      in case op_attributes op of
           Some attrs \<Rightarrow>
             (let sortedKeys = sort_key (formats_priority editor) (map fst (entries attrs));
                  s2 = keysLoop editor attrs sortedKeys 0 s1
              in if activeStack s2 \<noteq> [] then
                   (let last0 = last (activeStack s2)
                    in s2\<lparr>activeStack := butlast (activeStack s2)
                           @ [last0\<lparr>icontent := Some (combineChildren (icontent last0) (Some chn))\<rparr>]\<rparr>)
                 else s2)
         | None \<Rightarrow>
             (let s2 = collapseStack editor 0 s1
              in s2\<lparr>inlineChildren := combineChildren (Some (inlineChildren s2)) (Some chn)\<rparr>))"

fun opsLoop :: "Editor \<Rightarrow> Op option \<Rightarrow> Op list \<Rightarrow> InlineState \<Rightarrow> InlineState" where
  "opsLoop editor prev [] s = s"
| "opsLoop editor prev (op # rest) s =
     opsLoop editor (Some op) rest
       (renderOp editor prev op (case rest of [] \<Rightarrow> None | n # ns \<Rightarrow> Some n) s)"

definition BR :: VNode where
  "BR = VNode ''br'' [] [] None"

definition renderInline :: "Editor \<Rightarrow> Op list \<Rightarrow> VChild list" where
  "renderInline editor ops =
     (let s = opsLoop editor None ops
                \<lparr>inlineChildren = [], trailingBreak = True, activeStack = []\<rparr>;
          s1 = (if length (activeStack s) > 0 then collapseStack editor 0 s else s)
      in if trailingBreak s1 then inlineChildren s1 @ [Node BR] else inlineChildren s1)"

section \<open>Rendering render units\<close>

text \<open>A \<open>throw new Error(msg)\<close> is \<open>Error msg\<close>; reading a property of \<open>undefined\<close> is
  \<open>TypeError\<close>.\<close>

datatype error = Error string | TypeError

definition setKey :: "VNode \<Rightarrow> string \<Rightarrow> VNode" where
  "setKey node k = VNode (vtype node) (props node) (children node) (Some k)"

definition renderSingleLine :: "Editor \<Rightarrow> Line \<Rightarrow> Caches \<Rightarrow> (error + VNode) \<times> Caches" where
  "renderSingleLine editor line c =
     (let (type, c1) = getLineType editor line c
      in case lrender (lineTypes editor type) of
           None \<Rightarrow> (Inl (Error ''No render method defined for line''), c1)
         | Some render \<Rightarrow>
             (let node = render (attributes line) (renderInline editor (content line));
                  node1 = applyDecorations editor node (attributes line)
              in (Inr (setKey node1 (lid line)), c1)))"

text \<open>\<open>renderMultiLine\<close>: \<open>lines[0]\<close> of an empty array is \<open>undefined\<close>, and \<open>getLineType\<close>
  then fails reading its \<open>attributes\<close>.\<close>

definition renderMultiLine :: "Editor \<Rightarrow> LineArr \<Rightarrow> Caches \<Rightarrow> (error + VNode) \<times> Caches" where
  "renderMultiLine editor lines c =
     (case items lines of
        [] \<Rightarrow> (Inl TypeError, c)
      | first # others \<Rightarrow>
          (let (type, c1) = getLineType editor first c
           in case renderMultiple (lineTypes editor type) of
                None \<Rightarrow> (Inl (Error ''No render method defined for line''), c1)
              | Some render \<Rightarrow>
                  (let node = render (map (\<lambda>line. (attributes line,
                                                    renderInline editor (content line),
                                                    lid line)) (items lines))
                   in (Inr (setKey node (lid first)), c1))))"

fun renderLine :: "Editor \<Rightarrow> CombinedEntry \<Rightarrow> Caches \<Rightarrow> (error + VNode) \<times> Caches" where
  "renderLine editor (Multi lines) c = renderMultiLine editor lines c"
| "renderLine editor (Single line) c = renderSingleLine editor line c"

text \<open>\<open>renderCombined\<close>: \<open>combined.map(renderLine)\<close> stops at the first exception. Every
  rendered node is an object, so \<open>filter(Boolean)\<close> keeps them all.\<close>

fun renderCombined :: "Editor \<Rightarrow> Combined \<Rightarrow> Caches \<Rightarrow> (error + VNode list) \<times> Caches" where
  "renderCombined editor [] c = (Inr [], c)"
| "renderCombined editor (entry # rest) c =
     (case renderLine editor entry c of
        (Inl e, c1) \<Rightarrow> (Inl e, c1)
      | (Inr node, c1) \<Rightarrow>
          (case renderCombined editor rest c1 of
             (Inl e, c2) \<Rightarrow> (Inl e, c2)
           | (Inr nodes, c2) \<Rightarrow> (Inr (node # nodes), c2)))"

section \<open>Reconciler\<close>

text \<open>
  The document package is not part of the module: a \<open>TextDocument\<close> is its line array
  and its two lookups, \<open>doc.getLineRange(line)\<close> and \<open>doc.getLineBy(key)\<close>, which are
  also called with \<open>undefined\<close> (\<open>None\<close>).
\<close>

type_synonym EditorRange = "int \<times> int"

record TextDocument =
  doc_lines :: LineArr
  getLineRange :: "Line option \<Rightarrow> EditorRange"
  getLineBy :: "string option \<Rightarrow> Line option"

text \<open>
  The on-screen tree under \<open>root\<close> is described by the virtual nodes that were patched
  in: an on-screen element has the key, the children and whatever the selector reads of
  its virtual node. An on-screen node is addressed by its path from \<open>root\<close> (child
  indexes); the \<open>WeakMap\<close> from nodes to ranges that \<open>nodeRanges\<close> holds for \<open>root\<close> is a
  map from paths.
\<close>

type_synonym path = "nat list"

record EditorState =
  childNodes :: "VNode list"
  doc :: TextDocument
  nodeRanges :: "path \<rightharpoonup> EditorRange"
  caches :: Caches

text \<open>The element descendants of a node in document order, with their paths.\<close>

fun descendants :: "path \<Rightarrow> VNode \<Rightarrow> (path \<times> VNode) list"
  and descendantsOf :: "path \<Rightarrow> nat \<Rightarrow> VChild list \<Rightarrow> (path \<times> VNode) list" where
  "descendants p (VNode t ps cs k) = descendantsOf p 0 cs"
| "descendantsOf p i [] = []"
| "descendantsOf p i (Str s # cs) = descendantsOf p (i + 1) cs"
| "descendantsOf p i (Node n # cs) =
     (p @ [i], n) # descendants (p @ [i]) n @ descendantsOf p (i + 1) cs"

text \<open>\<open>node.querySelectorAll(editor.typeset.lines.selector)\<close> for the node at path \<open>p\<close>, and
  for \<open>root\<close>.\<close>

definition querySelectorAll :: "Editor \<Rightarrow> path \<Rightarrow> VNode \<Rightarrow> (path \<times> VNode) list" where
  "querySelectorAll editor p node = filter (\<lambda>(q, el). lines_selector editor el) (descendants p node)"

definition rootQuerySelectorAll :: "Editor \<Rightarrow> VNode list \<Rightarrow> (path \<times> VNode) list" where
  "rootQuerySelectorAll editor nodes =
     filter (\<lambda>(q, el). lines_selector editor el) (descendantsOf [] 0 (map Node nodes))"

text \<open>\<open>!x.key\<close>: the key is missing or the empty string.\<close>

definition noKey :: "VNode \<Rightarrow> bool" where
  "noKey node = (case key node of None \<Rightarrow> True | Some k \<Rightarrow> k = [])"

text \<open>\<open>entry[0]\<close> and \<open>entry[entry.length - 1]\<close>, \<open>undefined\<close> for an empty array.\<close>

definition firstLine :: "LineArr \<Rightarrow> Line option" where
  "firstLine entry = (case items entry of [] \<Rightarrow> None | l # ls \<Rightarrow> Some l)"

definition lastLine :: "LineArr \<Rightarrow> Line option" where
  "lastLine entry = (if items entry = [] then None else Some (last (items entry)))"

text \<open>The body of the first loop of \<open>setLineNodesRanges\<close>, for \<open>child = root.children[i]\<close>.\<close>

definition childRange ::
  "Editor \<Rightarrow> TextDocument \<Rightarrow> (string \<rightharpoonup> CombinedEntry) \<Rightarrow> nat \<Rightarrow> VNode
     \<Rightarrow> (path \<rightharpoonup> EditorRange) \<Rightarrow> (path \<rightharpoonup> EditorRange)" where
  "childRange editor d bk i child ranges =
     (if noKey child then ranges
      else case bk (the (key child)) of
             None \<Rightarrow> ranges
           | Some (Multi entry) \<Rightarrow>
               foldl (\<lambda>r (q, lineElement).
                        case getLineBy d (key lineElement) of
                          None \<Rightarrow> r
                        | Some line \<Rightarrow> r(q \<mapsto> getLineRange d (Some line)))
                     (ranges([i] \<mapsto> (fst (getLineRange d (firstLine entry)),
                                       snd (getLineRange d (lastLine entry)))))
                     (querySelectorAll editor [i] child)
           | Some (Single entry) \<Rightarrow> ranges([i] \<mapsto> getLineRange d (Some entry)))"

fun childrenRanges ::
  "Editor \<Rightarrow> TextDocument \<Rightarrow> (string \<rightharpoonup> CombinedEntry) \<Rightarrow> nat \<Rightarrow> VNode list
     \<Rightarrow> (path \<rightharpoonup> EditorRange) \<Rightarrow> (path \<rightharpoonup> EditorRange)" where
  "childrenRanges editor d bk i [] ranges = ranges"
| "childrenRanges editor d bk i (child # rest) ranges =
     childrenRanges editor d bk (i + 1) rest (childRange editor d bk i child ranges)"

text \<open>The second loop, over \<open>root.querySelectorAll(...)\<close>.\<close>

definition restRanges ::
  "Editor \<Rightarrow> TextDocument \<Rightarrow> VNode list \<Rightarrow> (path \<rightharpoonup> EditorRange) \<Rightarrow> (path \<rightharpoonup> EditorRange)" where
  "restRanges editor d nodes ranges =
     foldl (\<lambda>r (q, lineElement).
              if r q \<noteq> None \<or> noKey lineElement then r
              else r(q \<mapsto> getLineRange d (getLineBy d (key lineElement))))
           ranges (rootQuerySelectorAll editor nodes)"

definition setLineNodesRanges :: "Editor \<Rightarrow> EditorState \<Rightarrow> EditorState" where
  "setLineNodesRanges editor st =
     (let (data, c) = combineLines editor (doc_lines (doc st)) (caches st);
          ranges = childrenRanges editor (doc st) (byKey data) 0 (childNodes st) Map.empty
      in st\<lparr>nodeRanges := restRanges editor (doc st) (childNodes st) ranges, caches := c\<rparr>)"

definition renderDoc :: "Editor \<Rightarrow> TextDocument \<Rightarrow> Caches \<Rightarrow> (error + VNode list) \<times> Caches" where
  "renderDoc editor d c =
     (let (data, c1) = combineLines editor (doc_lines d) c
      in renderCombined editor (combined data) c1)"

text \<open>
  Modelled from the spec: \<open>patch\<close> of \<open>./vdom\<close>, which is not among the sources. The spec
  calls it a tree-patch primitive that "accepts an old node/slice and a new
  abstract-node list and performs minimal DOM-equivalent mutation", used to "replace
  the entire on-screen tree" or to "patch only that slice of the on-screen tree,
  preserving all nodes outside the window untouched". \<open>patchAll\<close> is \<open>patch(root, vnodes)\<close>:
  the children of \<open>root\<close> become the nodes described. \<open>patchSlice\<close> is
  \<open>patch(root, vnodes, oldSlice)\<close> for the slice \<open>[k, final)\<close> of the children: the nodes
  described take the place of the slice. The spec does not say where they go when the
  slice is empty; that is left to \<open>patch_insert\<close>.
\<close>

definition patchAll :: "VNode list \<Rightarrow> VNode list" where
  "patchAll vnodes = vnodes"


text \<open>\<open>render\<close>; the three events have no listener in the model. The result is the
  exception raised, if any, and the state afterwards.\<close>

definition render :: "Editor \<Rightarrow> TextDocument \<Rightarrow> EditorState \<Rightarrow> error option \<times> EditorState" where
  "render editor d st =
     (case renderDoc editor d (caches st) of
        (Inl e, c) \<Rightarrow> (Some e, st\<lparr>caches := c\<rparr>)
      | (Inr vnodes, c) \<Rightarrow>
          (None, setLineNodesRanges editor (st\<lparr>childNodes := patchAll vnodes, caches := c\<rparr>)))"





section \<open>Notions used to state the properties\<close>

text \<open>The member lines of a render unit, in order.\<close>

fun members :: "CombinedEntry \<Rightarrow> Line list" where
  "members (Single l) = [l]"
| "members (Multi a) = items a"

text \<open>The line type \<open>getLineType\<close> returns for a line when the caches are \<open>c\<close>.\<close>

definition resolvedType :: "Editor \<Rightarrow> Caches \<Rightarrow> Line \<Rightarrow> LineType" where
  "resolvedType editor c line = lineTypes editor (fst (getLineType editor line c))"

text \<open>A line is kept by the grouper when its type has a \<open>shouldCombine\<close> predicate or a
  \<open>render\<close> function; it goes into an array unit in the first case.\<close>

definition kept :: "Editor \<Rightarrow> Caches \<Rightarrow> Line \<Rightarrow> bool" where
  "kept editor c line =
     (shouldCombine (resolvedType editor c line) \<noteq> None
      \<or> lrender (resolvedType editor c line) \<noteq> None)"

definition inArray :: "Editor \<Rightarrow> Caches \<Rightarrow> Line \<Rightarrow> bool" where
  "inArray editor c line = (shouldCombine (resolvedType editor c line) \<noteq> None)"

text \<open>The lines of a unit by identity, each tagged with whether the unit is an array.\<close>

fun tagged :: "CombinedEntry \<Rightarrow> (bool \<times> ref) list" where
  "tagged (Single l) = [(False, lref l)]"
| "tagged (Multi a) = map (\<lambda>l. (True, lref l)) (items a)"

text \<open>Loop invariant of the grouper: a group is left open only when the next line's
  cached type has a \<open>shouldCombine\<close> predicate.\<close>

definition pending :: "Editor \<Rightarrow> CombineState \<Rightarrow> Line list \<Rightarrow> bool" where
  "pending editor s rest =
     (items (st_collect s) \<noteq> [] \<longrightarrow>
        (\<exists>n ns t sc. rest = n # ns \<and> linesType (st_caches s) (aref (attributes n)) = Some t
            \<and> shouldCombine (lineTypes editor t) = Some sc))"

definition tags :: "CombineState \<Rightarrow> (bool \<times> ref) list" where
  "tags s = concat (map tagged (st_combined s))
            @ map (\<lambda>l. (True, lref l)) (items (st_collect s))"

definition lineTag :: "Editor \<Rightarrow> ref \<Rightarrow> Line \<Rightarrow> (bool \<times> ref) list" where
  "lineTag editor t line =
     (if shouldCombine (lineTypes editor t) \<noteq> None then [(True, lref line)]
      else if lrender (lineTypes editor t) \<noteq> None then [(False, lref line)] else [])"

text \<open>The frame \<open>{ type, attributes }\<close> that \<open>insertStackItem\<close> pushes, and the types of
  the frames an attribute map asks for: the names whose format has a \<open>render\<close>.\<close>

definition newFrame :: "AttributeMap \<Rightarrow> ref \<Rightarrow> InlineStackItem" where
  "newFrame attrs t = \<lparr>itype = t, iattributes = attrs, icontent = None\<rparr>"

fun frameTypes :: "Editor \<Rightarrow> string list \<Rightarrow> ref list" where
  "frameTypes editor [] = []"
| "frameTypes editor (name # names) =
     (case formats_get editor name of
        None \<Rightarrow> frameTypes editor names
      | Some t \<Rightarrow>
          (case frender (formatTypes editor t) of
             None \<Rightarrow> frameTypes editor names
           | Some r \<Rightarrow> t # frameTypes editor names))"

section \<open>A concrete typeset and document\<close>

text \<open>
  Three line types: paragraphs (address 100, \<open>render\<close> only), list items (address 101,
  combinable when the \<open>list\<close> attribute agrees, \<open>renderMultiple\<close> only) and a type with
  no renderer at all (address 102). Three formats: \<open>bold\<close> (200), \<open>link\<close> (201, of
  lower priority) and \<open>foo\<close> (202), which resolves but has no \<open>render\<close>. No embed is
  registered.
\<close>

definition para_render :: "AttributeMap \<Rightarrow> VChild list \<Rightarrow> VNode" where
  "para_render a cs = VNode ''p'' [] cs None"

definition list_render :: "(AttributeMap \<times> VChild list \<times> string) list \<Rightarrow> VNode" where
  "list_render ls = VNode ''ul'' [] (map (\<lambda>(a, cs, k). Node (VNode ''li'' [] cs (Some k))) ls) None"

definition list_combine :: "AttributeMap \<Rightarrow> AttributeMap \<Rightarrow> bool" where
  "list_combine a b = (map_of (entries a) ''list'' = map_of (entries b) ''list'')"

definition para_type :: LineType where
  "para_type = \<lparr>lrender = Some para_render, renderMultiple = None, shouldCombine = None\<rparr>"

definition list_type :: LineType where
  "list_type = \<lparr>lrender = None, renderMultiple = Some list_render,
                 shouldCombine = Some list_combine\<rparr>"

definition no_renderer :: LineType where
  "no_renderer = \<lparr>lrender = None, renderMultiple = None, shouldCombine = None\<rparr>"

definition bold_render :: "AttributeMap \<Rightarrow> VChild list \<Rightarrow> VNode option" where
  "bold_render a cs = Some (VNode ''strong'' [] cs None)"

definition link_render :: "AttributeMap \<Rightarrow> VChild list \<Rightarrow> VNode option" where
  "link_render a cs =
     Some (VNode ''a'' (case map_of (entries a) ''link'' of
                          Some v \<Rightarrow> [(''href'', v)] | None \<Rightarrow> []) cs None)"

definition bold :: FormatType where
  "bold = \<lparr>fname = ''bold'', frender = Some bold_render\<rparr>"

definition link :: FormatType where
  "link = \<lparr>fname = ''link'', frender = Some link_render\<rparr>"

definition foo :: FormatType where
  "foo = \<lparr>fname = ''foo'', frender = None\<rparr>"

definition ex_editor :: Editor where
  "ex_editor = \<lparr>
     lineTypes = (\<lambda>r. if r = 100 then para_type else if r = 101 then list_type else no_renderer),
     lines_findByAttributes =
       (\<lambda>a. if map_of (entries a) ''list'' \<noteq> None then 101
             else if map_of (entries a) ''hidden'' \<noteq> None then 102 else 100),
     formatTypes = (\<lambda>r. if r = 200 then bold else if r = 201 then link else foo),
     formats_get = (\<lambda>n. if n = ''bold'' then Some 200 else if n = ''link'' then Some 201
                          else if n = ''foo'' then Some 202 else None),
     formats_priority = (\<lambda>n. if n = ''link'' then 0 else if n = ''bold'' then 1 else 2),
     embeds_findByAttributes = (\<lambda>a. None),
     applyDecorations = (\<lambda>n a. n),
     lines_selector = (\<lambda>n. vtype n = ''p'' \<or> vtype n = ''li''),
     patch_insert = (\<lambda>nodes vnodes. nodes @ vnodes)\<rparr>"

text \<open>Five lines: two list items, a paragraph, a line without renderer, a list item.\<close>

definition list_attrs :: "ref \<Rightarrow> AttributeMap" where
  "list_attrs r = \<lparr>aref = r, entries = [(''list'', JStr ''bullet'')]\<rparr>"

definition line1 :: Line where
  "line1 = \<lparr>lref = 1, lid = ''a'', attributes = list_attrs 11, content = []\<rparr>"

definition line2 :: Line where
  "line2 = \<lparr>lref = 2, lid = ''b'', attributes = list_attrs 12, content = []\<rparr>"

definition line3 :: Line where
  "line3 = \<lparr>lref = 3, lid = ''c'', attributes = \<lparr>aref = 13, entries = []\<rparr>, content = []\<rparr>"

definition line4 :: Line where
  "line4 = \<lparr>lref = 4, lid = ''h'',
             attributes = \<lparr>aref = 14, entries = [(''hidden'', JBool True)]\<rparr>, content = []\<rparr>"

definition line5 :: Line where
  "line5 = \<lparr>lref = 5, lid = ''d'', attributes = list_attrs 15, content = []\<rparr>"

definition ex_lines :: LineArr where
  "ex_lines = \<lparr>arr_ref = 1, items = [line1, line2, line3, line4, line5]\<rparr>"

definition ex_lone :: LineArr where
  "ex_lone = \<lparr>arr_ref = 2, items = [line5]\<rparr>"

text \<open>Empty caches, and the caches and result after \<open>combineLines\<close> on \<open>ex_lines\<close>.\<close>

definition no_caches :: Caches where
  "no_caches = \<lparr>linesType = Map.empty, linesMultiples = Map.empty, linesCombined = Map.empty,
                 nextRef = 5000\<rparr>"

definition ex_group1 :: LineArr where
  "ex_group1 = \<lparr>arr_ref = 5000, items = [line1, line2]\<rparr>"

definition ex_group2 :: LineArr where
  "ex_group2 = \<lparr>arr_ref = 5001, items = [line5]\<rparr>"

definition ex_data :: CombinedData where
  "ex_data = \<lparr>dref = 5003,
               combined = [Multi ex_group1, Single line3, Multi ex_group2],
               byKey = [''a'' \<mapsto> Multi ex_group1, ''c'' \<mapsto> Single line3,
                        ''d'' \<mapsto> Multi ex_group2]\<rparr>"

definition ex_caches :: Caches where
  "ex_caches = \<lparr>linesType = [11 \<mapsto> 101, 12 \<mapsto> 101, 13 \<mapsto> 100, 14 \<mapsto> 102, 15 \<mapsto> 101],
                 linesMultiples = [1 \<mapsto> ex_group1, 5 \<mapsto> ex_group2],
                 linesCombined = [1 \<mapsto> ex_data],
                 nextRef = 5004\<rparr>"

definition ex_lone_data :: CombinedData where
  "ex_lone_data = \<lparr>dref = 5002,
                    combined = [Multi \<lparr>arr_ref = 5000, items = [line5]\<rparr>],
                    byKey = [''d'' \<mapsto> Multi \<lparr>arr_ref = 5000, items = [line5]\<rparr>]\<rparr>"

definition ex_lone_caches :: Caches where
  "ex_lone_caches = \<lparr>linesType = [15 \<mapsto> 101],
                      linesMultiples = [5 \<mapsto> \<lparr>arr_ref = 5000, items = [line5]\<rparr>],
                      linesCombined = [2 \<mapsto> ex_lone_data],
                      nextRef = 5003\<rparr>"

text \<open>The grouper's variables in a later call, on another array object holding
  \<open>line1\<close> and \<open>line2\<close>, when it reaches \<open>line2\<close>.\<close>

definition ex_state :: CombineState where
  "ex_state = \<lparr>st_combined = [], st_byKey = Map.empty,
                st_collect = \<lparr>arr_ref = 5004, items = [line1]\<rparr>,
                st_caches = ex_caches\<lparr>nextRef := 5005\<rparr>\<rparr>"

definition first_state :: CombineState where
  "first_state = \<lparr>st_combined = [], st_byKey = Map.empty,
                   st_collect = \<lparr>arr_ref = 5000, items = []\<rparr>,
                   st_caches = no_caches\<lparr>nextRef := 5001\<rparr>\<rparr>"

text \<open>Operations of a content run.\<close>

definition bold_attrs :: AttributeMap where
  "bold_attrs = \<lparr>aref = 21, entries = [(''bold'', JBool True)]\<rparr>"

definition foo_attrs :: AttributeMap where
  "foo_attrs = \<lparr>aref = 22, entries = [(''foo'', JBool True)]\<rparr>"

definition bold_link_attrs :: AttributeMap where
  "bold_link_attrs = \<lparr>aref = 23, entries = [(''bold'', JBool True), (''link'', JStr ''u'')]\<rparr>"

definition text_op :: "string \<Rightarrow> AttributeMap option \<Rightarrow> Op" where
  "text_op t a = \<lparr>op_insert = InsStr t, op_attributes = a\<rparr>"

definition image_op :: Op where
  "image_op = \<lparr>op_insert = InsEmbed \<lparr>aref = 24, entries = [(''image'', JStr ''i.png'')]\<rparr>,
                op_attributes = None\<rparr>"

text \<open>The same link with another value of \<open>bold\<close>: a run with these attributes keeps
  the link frame of a run with \<open>bold_link_attrs\<close> and replaces its bold frame.\<close>

definition heavy_link_attrs :: AttributeMap where
  "heavy_link_attrs = \<lparr>aref = 25, entries = [(''bold'', JNum 700), (''link'', JStr ''u'')]\<rparr>"

text \<open>Two nodes whose props objects hold the same properties, set in another order.\<close>

definition link_ab :: VNode where
  "link_ab = VNode ''a'' [(''href'', JStr ''u''), (''title'', JStr ''t'')] [Str ''a''] None"

definition link_ba :: VNode where
  "link_ba = VNode ''a'' [(''title'', JStr ''t''), (''href'', JStr ''u'')] [Str ''c''] None"

text \<open>
  The typeset with a list type that has lost its renderers: it still has its
  \<open>shouldCombine\<close> predicate, but neither \<open>renderMultiple\<close> nor \<open>render\<close>.
\<close>

definition combine_only :: LineType where
  "combine_only = \<lparr>lrender = None, renderMultiple = None, shouldCombine = Some list_combine\<rparr>"

definition bare_editor :: Editor where
  "bare_editor = ex_editor\<lparr>lineTypes :=
     (\<lambda>r. if r = 101 then combine_only else lineTypes ex_editor r)\<rparr>"


section \<open>Notions used to compare the incremental and the full render\<close>








text \<open>The first exception of a list of results, or all their values.\<close>

fun sequence :: "(error + 'a) list \<Rightarrow> error + 'a list" where
  "sequence [] = Inr []"
| "sequence (Inl e # xs) = Inl e"
| "sequence (Inr x # xs) = (case sequence xs of Inl e \<Rightarrow> Inl e | Inr ys \<Rightarrow> Inr (x # ys))"


section \<open>A concrete edit\<close>

text \<open>
  The first document holds the list item \<open>line5\<close> and the paragraphs \<open>line3\<close> and \<open>line6\<close>,
  and is on screen; the middle paragraph is then replaced by \<open>line7\<close>, which holds the
  text \<open>x\<close>. \<open>ex_first_caches\<close> are the caches after the first document was grouped from
  empty caches; \<open>lone_group\<close> is the group made then, which the grouping of the second
  document finds in \<open>linesMultiples\<close> and uses again.
\<close>

definition line6 :: Line where
  "line6 = \<lparr>lref = 6, lid = ''e'', attributes = \<lparr>aref = 16, entries = []\<rparr>, content = []\<rparr>"

definition line7 :: Line where
  "line7 = \<lparr>lref = 7, lid = ''f'', attributes = \<lparr>aref = 17, entries = []\<rparr>,
             content = [text_op ''x'' None]\<rparr>"

definition lone_group :: LineArr where
  "lone_group = \<lparr>arr_ref = 5000, items = [line5]\<rparr>"

definition ex_first :: LineArr where
  "ex_first = \<lparr>arr_ref = 8, items = [line5, line3, line6]\<rparr>"

definition ex_second :: LineArr where
  "ex_second = \<lparr>arr_ref = 9, items = [line5, line7, line6]\<rparr>"

definition ex_first_data :: CombinedData where
  "ex_first_data = \<lparr>dref = 5002,
                     combined = [Multi lone_group, Single line3, Single line6],
                     byKey = [''d'' \<mapsto> Multi lone_group, ''c'' \<mapsto> Single line3,
                              ''e'' \<mapsto> Single line6]\<rparr>"

definition ex_first_caches :: Caches where
  "ex_first_caches = \<lparr>linesType = [15 \<mapsto> 101, 13 \<mapsto> 100, 16 \<mapsto> 100],
                       linesMultiples = [5 \<mapsto> lone_group],
                       linesCombined = [8 \<mapsto> ex_first_data],
                       nextRef = 5003\<rparr>"

definition ex_second_data :: CombinedData where
  "ex_second_data = \<lparr>dref = 5005,
                      combined = [Multi lone_group, Single line7, Single line6],
                      byKey = [''d'' \<mapsto> Multi lone_group, ''f'' \<mapsto> Single line7,
                               ''e'' \<mapsto> Single line6]\<rparr>"


text \<open>The lookups of the second document: the list item is one position long, the new
  paragraph two, the last paragraph one.\<close>

definition ex_range :: "Line option \<Rightarrow> EditorRange" where
  "ex_range l = (case l of
                   None \<Rightarrow> (0, 0)
                 | Some x \<Rightarrow> if lref x = 5 then (0, 1) else if lref x = 7 then (1, 3)
                             else if lref x = 6 then (3, 4) else (0, 0))"

definition ex_by :: "string option \<Rightarrow> Line option" where
  "ex_by k = (if k = Some ''d'' then Some line5 else if k = Some ''f'' then Some line7
              else if k = Some ''e'' then Some line6 else None)"

text \<open>The lookups of the first document.\<close>

definition ex_first_range :: "Line option \<Rightarrow> EditorRange" where
  "ex_first_range l = (case l of
                   None \<Rightarrow> (0, 0)
                 | Some x \<Rightarrow> if lref x = 5 then (0, 1) else if lref x = 3 then (1, 2)
                             else if lref x = 6 then (2, 3) else (0, 0))"

definition ex_first_by :: "string option \<Rightarrow> Line option" where
  "ex_first_by k = (if k = Some ''d'' then Some line5 else if k = Some ''c'' then Some line3
                    else if k = Some ''e'' then Some line6 else None)"

definition ex_old_doc :: TextDocument where
  "ex_old_doc = \<lparr>doc_lines = ex_first, getLineRange = ex_first_range,
                  getLineBy = ex_first_by\<rparr>"

definition ex_new_doc :: TextDocument where
  "ex_new_doc = \<lparr>doc_lines = ex_second, getLineRange = ex_range, getLineBy = ex_by\<rparr>"

text \<open>The nodes of the units, the editor before the incremental render (the first
  document on screen, \<open>editor.doc\<close> already the second) and after it.\<close>

definition ex_ul :: VNode where
  "ex_ul = VNode ''ul'' [] [Node (VNode ''li'' [] [Node BR] (Some ''d''))] (Some ''d'')"

definition ex_p :: VNode where
  "ex_p = VNode ''p'' [] [Node BR] (Some ''c'')"

definition ex_pe :: VNode where
  "ex_pe = VNode ''p'' [] [Node BR] (Some ''e'')"


definition ex_screen :: EditorState where
  "ex_screen = \<lparr>childNodes = [ex_ul, ex_p, ex_pe], doc = ex_new_doc,
                 nodeRanges = [[0] \<mapsto> (0, 1), [0, 0] \<mapsto> (0, 1), [1] \<mapsto> (1, 2),
                               [2] \<mapsto> (2, 3)],
                 caches = ex_first_caches\<rparr>"


section \<open>Facts about the concrete typeset and document\<close>

lemma ex_refs [simp]:
  "lref line1 = 1" "lref line2 = 2" "lref line3 = 3" "lref line4 = 4" "lref line5 = 5"
  "aref (attributes line1) = 11" "aref (attributes line2) = 12" "aref (attributes line3) = 13"
  "aref (attributes line4) = 14" "aref (attributes line5) = 15"
  by (simp_all add: line1_def line2_def line3_def line4_def line5_def list_attrs_def)

lemma ex_ids [simp]:
  "lid line1 = ''a''" "lid line2 = ''b''" "lid line3 = ''c''" "lid line4 = ''h''"
  "lid line5 = ''d''"
  by (simp_all add: line1_def line2_def line3_def line4_def line5_def)

lemma ex_contents [simp]:
  "content line1 = []" "content line2 = []" "content line3 = []" "content line4 = []"
  "content line5 = []"
  by (simp_all add: line1_def line2_def line3_def line4_def line5_def)

lemma ex_find [simp]:
  "lines_findByAttributes ex_editor (attributes line1) = 101"
  "lines_findByAttributes ex_editor (attributes line2) = 101"
  "lines_findByAttributes ex_editor (attributes line3) = 100"
  "lines_findByAttributes ex_editor (attributes line4) = 102"
  "lines_findByAttributes ex_editor (attributes line5) = 101"
  by (simp_all add: ex_editor_def line1_def line2_def line3_def line4_def line5_def
      list_attrs_def)

lemma ex_types [simp]:
  "lineTypes ex_editor 100 = para_type"
  "lineTypes ex_editor 101 = list_type"
  "lineTypes ex_editor 102 = no_renderer"
  "shouldCombine para_type = None" "lrender para_type = Some para_render"
  "renderMultiple para_type = None"
  "shouldCombine list_type = Some list_combine" "lrender list_type = None"
  "renderMultiple list_type = Some list_render"
  "shouldCombine no_renderer = None" "lrender no_renderer = None"
  "renderMultiple no_renderer = None"
  by (simp_all add: ex_editor_def para_type_def list_type_def no_renderer_def)

lemma ex_combine [simp]:
  "list_combine (attributes line1) (attributes line2)"
  "\<not> list_combine (attributes line1) (attributes line3)"
  by (simp_all add: list_combine_def line1_def line2_def line3_def list_attrs_def)

lemma ex_formats [simp]:
  "formats_get ex_editor ''bold'' = Some 200"
  "formats_get ex_editor ''link'' = Some 201"
  "formats_get ex_editor ''foo'' = Some 202"
  "formatTypes ex_editor 200 = bold"
  "formatTypes ex_editor 201 = link"
  "formatTypes ex_editor 202 = foo"
  "formats_priority ex_editor ''link'' = 0"
  "formats_priority ex_editor ''bold'' = 1"
  "formats_priority ex_editor ''foo'' = 2"
  "embeds_findByAttributes ex_editor a = None"
  "applyDecorations ex_editor n a = n"
  by (simp_all add: ex_editor_def)

lemma ex_text [simp]:
  "opText p ''x'' n = ''x''" "opText p ''a'' n = ''a''" "opText p ''c'' n = ''c''"
  by (simp_all add: opText_def replaceLeading_def replaceTrailing_def Let_def)

lemmas step_defs = newArr_def combineStep_def getLineType_def groupEnds_def closeGroup_def
  every_same_def Let_def

lemma ex_loop:
  "combineLoop ex_editor [line1, line2, line3, line4, line5] first_state =
     \<lparr>st_combined = [Multi ex_group1, Single line3, Multi ex_group2],
      st_byKey = [''a'' \<mapsto> Multi ex_group1, ''c'' \<mapsto> Single line3, ''d'' \<mapsto> Multi ex_group2],
      st_collect = \<lparr>arr_ref = 5002, items = []\<rparr>,
      st_caches = ex_caches\<lparr>linesCombined := Map.empty, nextRef := 5003\<rparr>\<rparr>"
  by (simp add: step_defs first_state_def no_caches_def ex_caches_def ex_group1_def ex_group2_def)

lemma ex_run: "combineLines ex_editor ex_lines no_caches = (ex_data, ex_caches)"
proof -
  have n: "newArr no_caches = (\<lparr>arr_ref = 5000, items = []\<rparr>, no_caches\<lparr>nextRef := 5001\<rparr>)"
    by (simp add: newArr_def no_caches_def)
  have m: "linesCombined no_caches (arr_ref ex_lines) = None"
    by (simp add: no_caches_def)
  show ?thesis
    unfolding combineLines_def
    using m n ex_loop
    by (simp add: ex_lines_def first_state_def ex_data_def ex_caches_def Let_def)
qed

lemma ex_lone_run: "combineLines ex_editor ex_lone no_caches = (ex_lone_data, ex_lone_caches)"
proof -
  have l: "combineLoop ex_editor [line5] first_state =
     \<lparr>st_combined = [Multi \<lparr>arr_ref = 5000, items = [line5]\<rparr>],
      st_byKey = [''d'' \<mapsto> Multi \<lparr>arr_ref = 5000, items = [line5]\<rparr>],
      st_collect = \<lparr>arr_ref = 5001, items = []\<rparr>,
      st_caches = \<lparr>linesType = [15 \<mapsto> 101],
                    linesMultiples = [5 \<mapsto> \<lparr>arr_ref = 5000, items = [line5]\<rparr>],
                    linesCombined = Map.empty, nextRef = 5002\<rparr>\<rparr>"
    by (simp add: step_defs first_state_def no_caches_def)
  have n: "newArr no_caches = (\<lparr>arr_ref = 5000, items = []\<rparr>, no_caches\<lparr>nextRef := 5001\<rparr>)"
    by (simp add: newArr_def no_caches_def)
  have m: "linesCombined no_caches (arr_ref ex_lone) = None"
    by (simp add: no_caches_def)
  show ?thesis
    unfolding combineLines_def
    using m n l
    by (simp add: ex_lone_def first_state_def ex_lone_data_def ex_lone_caches_def Let_def)
qed

lemma ex_resolved [simp]:
  "resolvedType ex_editor ex_caches line1 = list_type"
  "resolvedType ex_editor ex_caches line2 = list_type"
  "resolvedType ex_editor ex_caches line3 = para_type"
  "resolvedType ex_editor ex_caches line4 = no_renderer"
  "resolvedType ex_editor ex_caches line5 = list_type"
  "resolvedType ex_editor no_caches line3 = para_type"
  "resolvedType ex_editor no_caches line4 = no_renderer"
  "resolvedType ex_editor ex_lone_caches line5 = list_type"
  by (simp_all add: resolvedType_def getLineType_def ex_caches_def no_caches_def
      ex_lone_caches_def)

section \<open>Properties of the range diff\<close>

lemma isSame_refl: "isSame u u"
  by (cases u) simp_all

lemma frontLoop_all_same:
  "(\<And>k. i \<le> k \<Longrightarrow> k < minLength \<Longrightarrow> isSame (oldC ! k) (newC ! k)) \<Longrightarrow>
   frontLoop oldC newC minLength i starts = starts"
proof (induction oldC newC minLength i starts rule: frontLoop.induct)
  case (1 oldC newC minLength i starts)
  show ?case
  proof (cases "i < minLength")
    case True
    have same: "isSame (oldC ! i) (newC ! i)"
      using "1.prems"[of i] True by simp
    have "frontLoop oldC newC minLength (i + 1) starts = starts"
      using "1.IH" True same "1.prems" by simp
    then show ?thesis
      using True same by (subst frontLoop.simps) simp
  next
    case False
    then show ?thesis by (subst frontLoop.simps) simp
  qed
qed

lemma frontLoop_append:
  "frontLoop oldC (oldC @ [u]) (length oldC) 0 (0, 0) = (0, 0)"
  by (rule frontLoop_all_same) (simp add: nth_append isSame_refl)

lemma backLoop_append_mismatch:
  assumes "oldC \<noteq> []" and "\<not> isSame (last oldC) u"
  shows "backLoop oldC (oldC @ [u]) (length oldC) 0 (0, 0) = (length oldC, length oldC + 1)"
proof -
  have pos: "0 < length oldC" using assms(1) by simp
  have old_last: "oldC ! (length oldC - 0 - 1) = last oldC"
    using assms(1) by (simp add: last_conv_nth)
  have new_last: "(oldC @ [u]) ! (length (oldC @ [u]) - 0 - 1) = u"
    by simp
  show ?thesis
    using pos assms(2) old_last new_last
    by (subst backLoop.simps) simp
qed

text \<open>
  C2 (as amended). When \<open>newUnits\<close> is \<open>oldUnits\<close> with one unit appended, the front scan
  finds no mismatch inside the common length, so both windows start at index 0, not at
  \<open>n\<close>. For a non-empty \<open>oldUnits\<close> of length \<open>n\<close> whose last unit is not the same as the
  appended one, \<open>getChangedRanges\<close> returns the old window \<open>[0, n)\<close> and the new window
  \<open>[0, n + 1)\<close>; for an empty \<open>oldUnits\<close> it returns \<open>[0, 0)\<close> twice.
\<close>

theorem getChangedRanges_append:
  "(oldUnits \<noteq> [] \<and> \<not> isSame (last oldUnits) u \<longrightarrow>
      getChangedRanges oldUnits (oldUnits @ [u]) =
        ((0, length oldUnits), (0, length oldUnits + 1))) \<and>
   getChangedRanges [] ([] @ [u]) = ((0, 0), (0, 0))"
proof (intro conjI impI)
  assume h: "oldUnits \<noteq> [] \<and> \<not> isSame (last oldUnits) u"
  show "getChangedRanges oldUnits (oldUnits @ [u]) =
          ((0, length oldUnits), (0, length oldUnits + 1))"
    using h frontLoop_append[of oldUnits u] backLoop_append_mismatch[of oldUnits u]
    by (simp add: getChangedRanges_def Let_def)
next
  have f: "frontLoop [] [u] 0 0 (0, 0) = (0, 0)"
    by (subst frontLoop.simps) simp
  have b: "backLoop [] [u] 0 0 (0, 0) = (0, 0)"
    by (subst backLoop.simps) simp
  show "getChangedRanges [] ([] @ [u]) = ((0, 0), (0, 0))"
    using f b by (simp add: getChangedRanges_def Let_def)
qed

theorem getChangedRanges_append_witness:
  "[Single line3] \<noteq> [] \<and> \<not> isSame (last [Single line3]) (Single line4) \<and>
   getChangedRanges [Single line3] ([Single line3] @ [Single line4]) = ((0, 1), (0, 2))"
  using getChangedRanges_append[of "[Single line3]" "Single line4"]
  by simp

text \<open>
  The claim as written asks for the windows \<open>[n, n)\<close> and \<open>[n, n + 1)\<close>. With \<open>n = 1\<close>
  the code returns \<open>[0, 1)\<close> and \<open>[0, 2)\<close>.
\<close>

theorem getChangedRanges_append_counterexample:
  "getChangedRanges [Single line3] ([Single line3] @ [Single line4]) \<noteq> ((1, 1), (1, 2))"
proof -
  have f: "frontLoop [Single line3] [Single line3, Single line4] 1 0 (0, 0) = (0, 0)"
    by (simp add: frontLoop.simps)
  have b: "backLoop [Single line3] [Single line3, Single line4] 1 0 (0, 0) = (1, 2)"
    by (subst backLoop.simps) simp
  show ?thesis
    using f b by (simp add: getChangedRanges_def Let_def)
qed

section \<open>Properties of the caches\<close>

lemma getLineType_fields:
  "getLineType editor line c = (t, c') \<Longrightarrow>
   linesMultiples c' = linesMultiples c \<and> linesCombined c' = linesCombined c
   \<and> nextRef c' = nextRef c"
  by (auto simp: getLineType_def Let_def split: option.splits)

lemma getLineType_cached:
  "getLineType editor line c = (t, c') \<Longrightarrow> linesType c' (aref (attributes line)) = Some t"
  by (auto simp: getLineType_def Let_def split: option.splits)

lemma getLineType_mono:
  "getLineType editor line c = (t, c') \<Longrightarrow> linesType c \<subseteq>\<^sub>m linesType c'"
  by (auto simp: getLineType_def Let_def map_le_def split: option.splits)

lemma getLineType_hit:
  "linesType c (aref (attributes line)) = Some t \<Longrightarrow> getLineType editor line c = (t, c)"
  by (simp add: getLineType_def)

lemma resolvedType_cached:
  "linesType c (aref (attributes line)) = Some t \<Longrightarrow>
   resolvedType editor c line = lineTypes editor t"
  by (simp add: resolvedType_def getLineType_hit)

lemma resolvedType_linesType:
  "linesType c1 = linesType c2 \<Longrightarrow> resolvedType editor c1 = resolvedType editor c2"
  by (auto simp: resolvedType_def getLineType_def Let_def fun_eq_iff split: option.splits)

lemma groupEnds_fields:
  "groupEnds editor type sc collect nxt c = (b, c') \<Longrightarrow>
   linesMultiples c' = linesMultiples c \<and> linesCombined c' = linesCombined c
   \<and> nextRef c' = nextRef c"
  by (auto simp: groupEnds_def Let_def split: option.splits prod.splits
      dest: getLineType_fields)

lemma groupEnds_mono:
  "groupEnds editor type sc collect nxt c = (b, c') \<Longrightarrow> linesType c \<subseteq>\<^sub>m linesType c'"
  by (auto simp: groupEnds_def Let_def split: option.splits prod.splits dest: getLineType_mono)

lemma groupEnds_continue:
  "groupEnds editor type sc collect nxt c = (False, c') \<Longrightarrow>
   \<exists>n. nxt = Some n \<and> linesType c' (aref (attributes n)) = Some type"
  by (auto simp: groupEnds_def Let_def split: option.splits prod.splits
      dest: getLineType_cached)

lemma closeGroup_linesType:
  "closeGroup collect c = (unit, c') \<Longrightarrow> linesType c' = linesType c"
  by (auto simp: closeGroup_def split: option.splits if_splits)

lemma every_same_refs:
  "every_same xs ys \<Longrightarrow> map lref ys = map lref xs"
  unfolding every_same_def by (induction xs ys rule: list_all2_induct) simp_all

lemma closeGroup_refs:
  "closeGroup collect c = (unit, c') \<Longrightarrow> map lref (items unit) = map lref (items collect)"
  by (auto simp: closeGroup_def split: option.splits if_splits dest: every_same_refs)

lemma newArr_linesType: "newArr c = (a, c') \<Longrightarrow> linesType c' = linesType c \<and> items a = []"
  by (auto simp: newArr_def)

section \<open>Properties of the line grouper\<close>

lemma tag_refs: "map (\<lambda>l. (True, lref l)) xs = map (Pair True) (map lref xs)"
  by simp

lemma combineStep_tagged:
  assumes inv: "pending editor s (line # rest)"
    and s1: "s1 = combineStep editor line (case rest of [] \<Rightarrow> None | n # ns \<Rightarrow> Some n) s"
  shows "linesType (st_caches s) \<subseteq>\<^sub>m linesType (st_caches s1)
       \<and> (\<exists>t. linesType (st_caches s1) (aref (attributes line)) = Some t
              \<and> tags s1 = tags s @ lineTag editor t line)
       \<and> pending editor s1 rest"
proof -
  obtain t c1 where g: "getLineType editor line (st_caches s) = (t, c1)"
    by (cases "getLineType editor line (st_caches s)")
  note m1 = getLineType_mono[OF g] and h1 = getLineType_cached[OF g]
  show ?thesis
  proof (cases "shouldCombine (lineTypes editor t)")
    case None
    have empty: "items (st_collect s) = []"
    proof (rule ccontr)
      assume "items (st_collect s) \<noteq> []"
      then obtain t' sc where "linesType (st_caches s) (aref (attributes line)) = Some t'"
        and "shouldCombine (lineTypes editor t') = Some sc"
        using inv by (auto simp: pending_def)
      then show False using g None by (simp add: getLineType_hit)
    qed
    show ?thesis
    proof (cases "lrender (lineTypes editor t)")
      case N2: None
      have "s1 = s\<lparr>st_caches := c1\<rparr>" using s1 g None N2 by (simp add: combineStep_def)
      then show ?thesis using m1 h1 None N2 empty
        by (auto simp: tags_def lineTag_def pending_def)
    next
      case (Some r)
      have "s1 = s\<lparr>st_combined := st_combined s @ [Single line],
                  st_byKey := (st_byKey s)(lid line \<mapsto> Single line), st_caches := c1\<rparr>"
        using s1 g None Some by (simp add: combineStep_def)
      then show ?thesis using m1 h1 None Some empty
        by (auto simp: tags_def lineTag_def pending_def)
    qed
  next
    case (Some sc)
    define collect where "collect = (st_collect s)\<lparr>items := items (st_collect s) @ [line]\<rparr>"
    define nxt where "nxt = (case rest of [] \<Rightarrow> None | n # ns \<Rightarrow> Some n)"
    obtain ends c2 where e: "groupEnds editor t sc collect nxt c1 = (ends, c2)"
      by (cases "groupEnds editor t sc collect nxt c1")
    note m2 = groupEnds_mono[OF e]
    have m12: "linesType (st_caches s) \<subseteq>\<^sub>m linesType c2"
      using m1 m2 by (rule map_le_trans)
    have h2: "linesType c2 (aref (attributes line)) = Some t"
      using h1 m2 by (auto simp: map_le_def dom_def)
    show ?thesis
    proof (cases ends)
      case False
      have s1': "s1 = s\<lparr>st_collect := collect, st_caches := c2\<rparr>"
        using s1 g Some e False by (simp add: combineStep_def collect_def nxt_def)
      obtain n where n: "nxt = Some n" "linesType c2 (aref (attributes n)) = Some t"
        using e False groupEnds_continue[of editor t sc collect nxt c1 c2] by auto
      then obtain ns where "rest = n # ns" by (auto simp: nxt_def split: list.splits)
      then have "pending editor s1 rest" using s1' n Some by (auto simp: pending_def)
      moreover have "tags s1 = tags s @ lineTag editor t line"
        using s1' Some by (simp add: tags_def lineTag_def collect_def)
      ultimately show ?thesis using m12 h2 s1' by auto
    next
      case True
      obtain unit c3 where cl: "closeGroup collect c2 = (unit, c3)"
        by (cases "closeGroup collect c2")
      obtain fresh c4 where nw: "newArr c3 = (fresh, c4)"
        by (cases "newArr c3")
      have s1': "s1 = s\<lparr>st_combined := st_combined s @ [Multi unit],
                         st_byKey := (st_byKey s)(lid (hd (items unit)) \<mapsto> Multi unit),
                         st_collect := fresh, st_caches := c4\<rparr>"
        using s1 g Some e True cl nw by (simp add: combineStep_def collect_def nxt_def)
      have lt: "linesType c4 = linesType c2"
        using closeGroup_linesType[OF cl] newArr_linesType[OF nw] by simp
      have fr: "items fresh = []" using newArr_linesType[OF nw] by simp
      have refs: "map lref (items unit) = map lref (items (st_collect s)) @ [lref line]"
        using closeGroup_refs[OF cl] by (simp add: collect_def)
      have "tags s1 = tags s @ lineTag editor t line"
        using s1' Some fr refs by (simp add: tags_def lineTag_def tag_refs)
      moreover have "pending editor s1 rest" using s1' fr by (simp add: pending_def)
      ultimately show ?thesis using m12 h2 s1' lt by auto
    qed
  qed
qed

lemma lineTag_resolved:
  "linesType c (aref (attributes line)) = Some t \<Longrightarrow>
   lineTag editor t line = map (\<lambda>l. (inArray editor c l, lref l)) (filter (kept editor c) [line])"
  by (auto simp: lineTag_def kept_def inArray_def resolvedType_cached)

lemma combineLoop_tagged:
  "pending editor s rest \<Longrightarrow> s' = combineLoop editor rest s \<Longrightarrow>
   linesType (st_caches s) \<subseteq>\<^sub>m linesType (st_caches s') \<and>
   items (st_collect s') = [] \<and>
   concat (map tagged (st_combined s')) =
     tags s @ map (\<lambda>l. (inArray editor (st_caches s') l, lref l))
                (filter (kept editor (st_caches s')) rest)"
proof (induction rest arbitrary: s)
  case Nil
  then show ?case by (auto simp: pending_def tags_def)
next
  case (Cons line rest)
  define s1 where
    "s1 = combineStep editor line (case rest of [] \<Rightarrow> None | n # ns \<Rightarrow> Some n) s"
  have s': "s' = combineLoop editor rest s1" using Cons.prems(2) by (simp add: s1_def)
  from combineStep_tagged[OF Cons.prems(1) s1_def]
  obtain t where m: "linesType (st_caches s) \<subseteq>\<^sub>m linesType (st_caches s1)"
    and t: "linesType (st_caches s1) (aref (attributes line)) = Some t"
    and tg: "tags s1 = tags s @ lineTag editor t line"
    and p: "pending editor s1 rest" by auto
  from Cons.IH[OF p s']
  have m': "linesType (st_caches s1) \<subseteq>\<^sub>m linesType (st_caches s')"
    and e: "items (st_collect s') = []"
    and c: "concat (map tagged (st_combined s')) =
       tags s1 @ map (\<lambda>l. (inArray editor (st_caches s') l, lref l))
                  (filter (kept editor (st_caches s')) rest)"
    by auto
  have t': "linesType (st_caches s') (aref (attributes line)) = Some t"
    using t m' by (auto simp: map_le_def dom_def)
  have "lineTag editor t line =
      map (\<lambda>l. (inArray editor (st_caches s') l, lref l))
        (filter (kept editor (st_caches s')) [line])"
    by (rule lineTag_resolved[OF t'])
  then show ?case using c tg e map_le_trans[OF m m'] by simp
qed

lemma tagged_refs: "map snd (tagged u) = map lref (members u)"
  by (cases u) (simp_all add: comp_def)

lemma concat_tagged_refs:
  "map snd (concat (map tagged us)) = map lref (concat (map members us))"
  by (induction us) (simp_all add: tagged_refs)

lemma combineStep_nonempty:
  assumes "\<forall>u \<in> set (st_combined s). members u \<noteq> []"
  shows "\<forall>u \<in> set (st_combined (combineStep editor line nxt s)). members u \<noteq> []"
proof -
  have "closeGroup collect c = (unit, c') \<Longrightarrow> items collect \<noteq> [] \<Longrightarrow> items unit \<noteq> []"
    for collect c unit c'
    using closeGroup_refs[of collect c unit c'] by (metis map_is_Nil_conv)
  then show ?thesis using assms
    by (auto simp: combineStep_def Let_def split: prod.splits option.splits)
qed

lemma combineLoop_nonempty:
  "\<forall>u \<in> set (st_combined s). members u \<noteq> [] \<Longrightarrow>
   \<forall>u \<in> set (st_combined (combineLoop editor rest s)). members u \<noteq> []"
proof (induction rest arbitrary: s)
  case Nil
  then show ?case by simp
next
  case (Cons line rest)
  show ?case
    using Cons.IH[OF combineStep_nonempty[OF Cons.prems]] by simp
qed

lemma combineLines_tagged:
  assumes miss: "linesCombined c (arr_ref lines) = None"
    and run: "combineLines editor lines c = (d, c')"
  shows "concat (map tagged (combined d)) =
           map (\<lambda>l. (inArray editor c' l, lref l)) (filter (kept editor c') (items lines))"
    and "\<forall>u \<in> set (combined d). members u \<noteq> []"
proof -
  obtain collect c0 where nw: "newArr c = (collect, c0)" by (cases "newArr c")
  define s0 where
    "s0 = \<lparr>st_combined = [], st_byKey = Map.empty, st_collect = collect, st_caches = c0\<rparr>"
  define s' where "s' = combineLoop editor (items lines) s0"
  have d: "combined d = st_combined s'" and c': "linesType c' = linesType (st_caches s')"
    using miss run nw by (auto simp: combineLines_def Let_def s0_def s'_def)
  have e: "items collect = []" using nw by (auto simp: newArr_def)
  have p: "pending editor s0 (items lines)" using e by (simp add: pending_def s0_def)
  have t0: "tags s0 = []" using e by (simp add: tags_def s0_def)
  have eq: "resolvedType editor c' = resolvedType editor (st_caches s')"
    by (rule resolvedType_linesType[OF c'])
  then have k: "kept editor c' = kept editor (st_caches s')"
    and a: "inArray editor c' = inArray editor (st_caches s')"
    by (auto simp: kept_def inArray_def fun_eq_iff)
  show "concat (map tagged (combined d)) =
           map (\<lambda>l. (inArray editor c' l, lref l)) (filter (kept editor c') (items lines))"
    using combineLoop_tagged[OF p s'_def] t0 d k a by simp
  have "\<forall>u \<in> set (st_combined s0). members u \<noteq> []" by (simp add: s0_def)
  from combineLoop_nonempty[OF this]
  show "\<forall>u \<in> set (combined d). members u \<noteq> []" using d s'_def by simp
qed

lemma tagged_True:
  "(True, r) \<in> set (tagged u) \<Longrightarrow> \<exists>g. u = Multi g \<and> r \<in> lref ` set (items g)"
  by (cases u) auto

text \<open>
  C3 (as amended). When \<open>combineLines\<close> computes the grouping of a line sequence (no
  memoized result for the array), the member lines of the returned units, concatenated
  in order, are by identity exactly the input lines without those whose resolved type
  has neither a \<open>shouldCombine\<close> predicate nor a \<open>render\<close> function; no unit is empty. So
  every kept line is in exactly one unit and the units follow the order of the lines.
  The resolved type is the one \<open>getLineType\<close> returns for the line once the call has
  returned. Whether the type has a \<open>renderMultiple\<close> function plays no part: a line whose
  type has \<open>shouldCombine\<close> is kept even when nothing can render it.
\<close>

theorem combineLines_partition:
  assumes "linesCombined c (arr_ref lines) = None"
    and "combineLines editor lines c = (d, c')"
  shows "map lref (concat (map members (combined d))) =
           map lref (filter (kept editor c') (items lines))
         \<and> (\<forall>u \<in> set (combined d). members u \<noteq> [])"
proof -
  have "map snd (concat (map tagged (combined d))) =
          map snd (map (\<lambda>l. (inArray editor c' l, lref l))
                    (filter (kept editor c') (items lines)))"
    using combineLines_tagged(1)[OF assms] by simp
  then have "map lref (concat (map members (combined d))) =
           map lref (filter (kept editor c') (items lines))"
    by (simp add: concat_tagged_refs comp_def)
  then show ?thesis using combineLines_tagged(2)[OF assms] by simp
qed

theorem combineLines_partition_witness:
  "linesCombined no_caches (arr_ref ex_lines) = None
   \<and> combineLines ex_editor ex_lines no_caches = (ex_data, ex_caches)
   \<and> map lref (concat (map members (combined ex_data))) = [1, 2, 3, 5]
   \<and> map lref (filter (kept ex_editor ex_caches) (items ex_lines)) = [1, 2, 3, 5]
   \<and> map (map lref \<circ> members) (combined ex_data) = [[1, 2], [3], [5]]"
proof -
  have m: "linesCombined no_caches (arr_ref ex_lines) = None"
    by (simp add: no_caches_def)
  have k: "map lref (filter (kept ex_editor ex_caches) (items ex_lines)) = [1, 2, 3, 5]"
    by (simp add: kept_def ex_lines_def)
  show ?thesis
    using combineLines_partition[OF m ex_run] m ex_run k
    by (simp add: ex_data_def ex_group1_def ex_group2_def)
qed

text \<open>
  The claim as written excludes the lines whose resolved type has no applicable
  renderer. With the list type that has \<open>shouldCombine\<close> but neither \<open>renderMultiple\<close> nor
  \<open>render\<close>, the list item \<open>line5\<close> has no renderer at all, and yet it is a member of the
  one unit returned; rendering the units raises.
\<close>

theorem combineLines_partition_counterexample:
  "lrender (resolvedType bare_editor ex_lone_caches line5) = None
   \<and> renderMultiple (resolvedType bare_editor ex_lone_caches line5) = None
   \<and> linesCombined no_caches (arr_ref ex_lone) = None
   \<and> combineLines bare_editor ex_lone no_caches = (ex_lone_data, ex_lone_caches)
   \<and> concat (map members (combined ex_lone_data)) = [line5]
   \<and> concat (map members (combined ex_lone_data)) \<noteq> []
   \<and> fst (renderCombined bare_editor (combined ex_lone_data) ex_lone_caches)
       = Inl (Error ''No render method defined for line'')"
proof -
  have t: "lineTypes bare_editor 101 = combine_only"
    "lines_findByAttributes bare_editor (attributes line5) = 101"
    by (simp_all add: bare_editor_def)
  have r: "resolvedType bare_editor ex_lone_caches line5 = combine_only"
    by (simp add: resolvedType_def getLineType_def ex_lone_caches_def t)
  have l: "combineLoop bare_editor [line5] first_state =
     \<lparr>st_combined = [Multi \<lparr>arr_ref = 5000, items = [line5]\<rparr>],
      st_byKey = [''d'' \<mapsto> Multi \<lparr>arr_ref = 5000, items = [line5]\<rparr>],
      st_collect = \<lparr>arr_ref = 5001, items = []\<rparr>,
      st_caches = \<lparr>linesType = [15 \<mapsto> 101],
                    linesMultiples = [5 \<mapsto> \<lparr>arr_ref = 5000, items = [line5]\<rparr>],
                    linesCombined = Map.empty, nextRef = 5002\<rparr>\<rparr>"
    by (simp add: step_defs first_state_def no_caches_def t combine_only_def)
  have n: "newArr no_caches = (\<lparr>arr_ref = 5000, items = []\<rparr>, no_caches\<lparr>nextRef := 5001\<rparr>)"
    by (simp add: newArr_def no_caches_def)
  have m: "linesCombined no_caches (arr_ref ex_lone) = None"
    by (simp add: no_caches_def)
  have run: "combineLines bare_editor ex_lone no_caches = (ex_lone_data, ex_lone_caches)"
    unfolding combineLines_def
    using m n l
    by (simp add: ex_lone_def first_state_def ex_lone_data_def ex_lone_caches_def Let_def)
  have rc: "fst (renderCombined bare_editor (combined ex_lone_data) ex_lone_caches)
       = Inl (Error ''No render method defined for line'')"
    by (simp add: ex_lone_data_def renderMultiLine_def getLineType_def ex_lone_caches_def t
        combine_only_def)
  show ?thesis
    using r m run rc by (simp add: combine_only_def ex_lone_data_def)
qed

text \<open>
  C4. A second call of \<open>combineLines\<close> with the same array object (any argument with the
  same address) returns the very result object of the first call and leaves the caches
  as they are: nothing is recomputed.
\<close>

theorem combineLines_memoized:
  assumes "combineLines editor lines c = (d, c')" and "arr_ref lines' = arr_ref lines"
  shows "combineLines editor' lines' c' = (d, c')"
proof (cases "linesCombined c (arr_ref lines)")
  case None
  then have "linesCombined c' (arr_ref lines) = Some d"
    using assms(1) by (auto simp: combineLines_def Let_def split: prod.splits)
  then show ?thesis using assms(2) by (simp add: combineLines_def)
next
  case (Some cache)
  then have "d = cache" "c' = c" using assms(1) by (auto simp: combineLines_def)
  then show ?thesis using Some assms(2) by (simp add: combineLines_def)
qed

theorem combineLines_memoized_witness:
  "combineLines ex_editor ex_lines no_caches = (ex_data, ex_caches)
   \<and> arr_ref ex_lines = arr_ref ex_lines
   \<and> combineLines ex_editor ex_lines ex_caches = (ex_data, ex_caches)
   \<and> dref ex_data = 5003"
  using combineLines_memoized[OF ex_run, of ex_lines ex_editor] ex_run
  by (simp add: ex_data_def)

text \<open>
  C5. When the grouper closes a group (the line has a combinable type and the group
  ends after it): if the memo of the group's first line is an array of the same length
  whose members are pairwise identical to the collected ones, that memoized array
  object is the unit pushed and the memo stays; otherwise the collected array is pushed
  and becomes the memo of its first line.
\<close>

theorem combineStep_reuses_group:
  assumes g: "getLineType editor line (st_caches s) = (type, c1)"
    and sc: "shouldCombine (lineTypes editor type) = Some sc"
    and col: "collect = (st_collect s)\<lparr>items := items (st_collect s) @ [line]\<rparr>"
    and e: "groupEnds editor type sc collect nxt c1 = (True, c2)"
  shows "(\<forall>last0. linesMultiples (st_caches s) (lref (hd (items collect))) = Some last0
            \<and> length (items last0) = length (items collect)
            \<and> every_same (items collect) (items last0)
          \<longrightarrow> st_combined (combineStep editor line nxt s) = st_combined s @ [Multi last0]
            \<and> linesMultiples (st_caches (combineStep editor line nxt s))
                = linesMultiples (st_caches s))
       \<and> ((\<forall>last0. linesMultiples (st_caches s) (lref (hd (items collect))) = Some last0
              \<longrightarrow> \<not> (length (items last0) = length (items collect)
                      \<and> every_same (items collect) (items last0)))
          \<longrightarrow> st_combined (combineStep editor line nxt s) = st_combined s @ [Multi collect]
            \<and> linesMultiples (st_caches (combineStep editor line nxt s))
                = (linesMultiples (st_caches s))(lref (hd (items collect)) \<mapsto> collect))"
proof -
  have m: "linesMultiples c2 = linesMultiples (st_caches s)"
    using getLineType_fields[OF g] groupEnds_fields[OF e] by simp
  obtain unit c3 where cl: "closeGroup collect c2 = (unit, c3)"
    by (cases "closeGroup collect c2")
  have step: "st_combined (combineStep editor line nxt s) = st_combined s @ [Multi unit]"
    "linesMultiples (st_caches (combineStep editor line nxt s)) = linesMultiples c3"
    using g sc e cl col by (simp_all add: combineStep_def newArr_def Let_def)
  show ?thesis
    using step cl m
    by (auto simp: closeGroup_def split: option.splits if_splits)
qed

theorem combineStep_reuses_group_witness:
  "getLineType ex_editor line2 (st_caches ex_state) = (101, st_caches ex_state)
   \<and> shouldCombine (lineTypes ex_editor 101) = Some list_combine
   \<and> groupEnds ex_editor 101 list_combine \<lparr>arr_ref = 5004, items = [line1, line2]\<rparr> None
        (st_caches ex_state) = (True, st_caches ex_state)
   \<and> linesMultiples (st_caches ex_state) (lref line1) = Some ex_group1
   \<and> every_same [line1, line2] (items ex_group1)
   \<and> st_combined (combineStep ex_editor line2 None ex_state) = [Multi ex_group1]
   \<and> arr_ref ex_group1 = 5000
   \<and> getLineType ex_editor line5 (st_caches first_state)
        = (101, (st_caches first_state)\<lparr>linesType := [15 \<mapsto> 101]\<rparr>)
   \<and> linesMultiples (st_caches first_state) (lref line5) = None
   \<and> st_combined (combineStep ex_editor line5 None first_state)
        = [Multi \<lparr>arr_ref = 5000, items = [line5]\<rparr>]
   \<and> linesMultiples (st_caches (combineStep ex_editor line5 None first_state)) (lref line5)
        = Some \<lparr>arr_ref = 5000, items = [line5]\<rparr>"
proof -
  have g: "getLineType ex_editor line2 (st_caches ex_state) = (101, st_caches ex_state)"
    by (simp add: getLineType_def ex_state_def ex_caches_def)
  have sc: "shouldCombine (lineTypes ex_editor 101) = Some list_combine" by simp
  have col: "\<lparr>arr_ref = 5004, items = [line1, line2]\<rparr>
             = (st_collect ex_state)\<lparr>items := items (st_collect ex_state) @ [line2]\<rparr>"
    by (simp add: ex_state_def)
  have e: "groupEnds ex_editor 101 list_combine \<lparr>arr_ref = 5004, items = [line1, line2]\<rparr> None
             (st_caches ex_state) = (True, st_caches ex_state)"
    by (simp add: groupEnds_def)
  have memo: "linesMultiples (st_caches ex_state) (lref line1) = Some ex_group1"
    by (simp add: ex_state_def ex_caches_def)
  have same: "every_same [line1, line2] (items ex_group1)"
    by (simp add: every_same_def ex_group1_def)
  have g': "getLineType ex_editor line5 (st_caches first_state)
        = (101, (st_caches first_state)\<lparr>linesType := [15 \<mapsto> 101]\<rparr>)"
    by (simp add: getLineType_def first_state_def no_caches_def)
  have col': "\<lparr>arr_ref = 5000, items = [line5]\<rparr>
             = (st_collect first_state)\<lparr>items := items (st_collect first_state) @ [line5]\<rparr>"
    by (simp add: first_state_def)
  have e': "groupEnds ex_editor 101 list_combine \<lparr>arr_ref = 5000, items = [line5]\<rparr> None
             ((st_caches first_state)\<lparr>linesType := [15 \<mapsto> 101]\<rparr>)
            = (True, (st_caches first_state)\<lparr>linesType := [15 \<mapsto> 101]\<rparr>)"
    by (simp add: groupEnds_def)
  have memo': "linesMultiples (st_caches first_state) (lref line5) = None"
    by (simp add: first_state_def no_caches_def)
  show ?thesis
    using combineStep_reuses_group[OF g sc col e] combineStep_reuses_group[OF g' sc col' e']
      g sc e memo same g' memo'
    by (simp add: ex_state_def first_state_def ex_group1_def)
qed

section \<open>Properties of rendering render units\<close>

lemma renderCombined_length:
  "renderCombined editor units c = (Inr nodes, c') \<Longrightarrow> length nodes = length units"
proof (induction units arbitrary: c nodes)
  case Nil
  then show ?case by simp
next
  case (Cons u units)
  then show ?case
    by (auto split: prod.splits sum.splits)
qed

lemma renderCombined_fails:
  "renderCombined editor pre c = (Inr nodes, c1) \<Longrightarrow> renderLine editor u c1 = (Inl e, c2) \<Longrightarrow>
   renderCombined editor (pre @ u # post) c = (Inl e, c2)"
proof (induction pre arbitrary: c nodes)
  case Nil
  then show ?case by simp
next
  case (Cons p pre)
  obtain r cp where p: "renderLine editor p c = (r, cp)" by (cases "renderLine editor p c")
  show ?case
  proof (cases r)
    case (Inl x)
    then show ?thesis using Cons.prems(1) p by simp
  next
    case (Inr node)
    obtain r' c' where r': "renderCombined editor pre cp = (r', c')"
      by (cases "renderCombined editor pre cp")
    then obtain ns where "r' = Inr ns" "c' = c1"
      using Cons.prems(1) p Inr by (cases r') auto
    then have "renderCombined editor (pre @ u # post) cp = (Inl e, c2)"
      using Cons.IH[of cp ns] r' Cons.prems(2) by simp
    then show ?thesis using p Inr by simp
  qed
qed

text \<open>
  C6. \<open>renderSingleLine\<close> raises \<open>Error "No render method defined for line"\<close> when the
  line's resolved type has no \<open>render\<close> function, and \<open>renderMultiLine\<close> raises it when
  the type of the first member line has no \<open>renderMultiple\<close> function. The unit is not
  skipped: in \<open>renderCombined\<close> the error of a unit is the result of the whole call,
  whatever follows the unit, and a call that succeeds returns one node per unit.
\<close>

theorem missing_render_function_raises:
  "(lrender (resolvedType editor c line) = None \<longrightarrow>
      fst (renderSingleLine editor line c) = Inl (Error ''No render method defined for line''))
   \<and> (items lines = first # others \<and> renderMultiple (resolvedType editor c first) = None \<longrightarrow>
      fst (renderMultiLine editor lines c) = Inl (Error ''No render method defined for line''))
   \<and> (renderCombined editor pre c = (Inr nodes, c1) \<and> renderLine editor u c1 = (Inl e, c2) \<longrightarrow>
      renderCombined editor (pre @ u # post) c = (Inl e, c2))
   \<and> (renderCombined editor units c = (Inr nodes', c') \<longrightarrow> length nodes' = length units)"
proof (intro conjI impI)
  assume "lrender (resolvedType editor c line) = None"
  then show "fst (renderSingleLine editor line c)
               = Inl (Error ''No render method defined for line'')"
    by (auto simp: renderSingleLine_def resolvedType_def split: prod.splits)
next
  assume "items lines = first # others \<and> renderMultiple (resolvedType editor c first) = None"
  then show "fst (renderMultiLine editor lines c)
               = Inl (Error ''No render method defined for line'')"
    by (auto simp: renderMultiLine_def resolvedType_def split: prod.splits)
next
  assume "renderCombined editor pre c = (Inr nodes, c1) \<and> renderLine editor u c1 = (Inl e, c2)"
  then show "renderCombined editor (pre @ u # post) c = (Inl e, c2)"
    using renderCombined_fails by blast
next
  assume "renderCombined editor units c = (Inr nodes', c')"
  then show "length nodes' = length units" by (rule renderCombined_length)
qed

lemma ex_render_line3:
  "renderSingleLine ex_editor line3 no_caches =
     (Inr (VNode ''p'' [] [Node BR] (Some ''c'')), no_caches\<lparr>linesType := [13 \<mapsto> 100]\<rparr>)"
  by (simp add: renderSingleLine_def getLineType_def no_caches_def renderInline_def
      setKey_def para_render_def)

lemma ex_render_line4:
  "renderSingleLine ex_editor line4 (no_caches\<lparr>linesType := [13 \<mapsto> 100]\<rparr>) =
     (Inl (Error ''No render method defined for line''),
      no_caches\<lparr>linesType := [13 \<mapsto> 100, 14 \<mapsto> 102]\<rparr>)"
  by (simp add: renderSingleLine_def getLineType_def no_caches_def)

theorem missing_render_function_raises_witness:
  "lrender (resolvedType ex_editor no_caches line4) = None
   \<and> fst (renderSingleLine ex_editor line4 no_caches)
       = Inl (Error ''No render method defined for line'')
   \<and> items \<lparr>arr_ref = 9, items = [line3]\<rparr> = line3 # []
   \<and> renderMultiple (resolvedType ex_editor no_caches line3) = None
   \<and> fst (renderMultiLine ex_editor \<lparr>arr_ref = 9, items = [line3]\<rparr> no_caches)
       = Inl (Error ''No render method defined for line'')
   \<and> renderCombined ex_editor [Single line3] no_caches
       = (Inr [VNode ''p'' [] [Node BR] (Some ''c'')], no_caches\<lparr>linesType := [13 \<mapsto> 100]\<rparr>)
   \<and> renderLine ex_editor (Single line4) (no_caches\<lparr>linesType := [13 \<mapsto> 100]\<rparr>)
       = (Inl (Error ''No render method defined for line''),
          no_caches\<lparr>linesType := [13 \<mapsto> 100, 14 \<mapsto> 102]\<rparr>)
   \<and> renderCombined ex_editor ([Single line3] @ Single line4 # [Single line3]) no_caches
       = (Inl (Error ''No render method defined for line''),
          no_caches\<lparr>linesType := [13 \<mapsto> 100, 14 \<mapsto> 102]\<rparr>)
   \<and> length [VNode ''p'' [] [Node BR] (Some ''c'')] = length [Single line3]"
proof -
  have r3: "renderCombined ex_editor [Single line3] no_caches
       = (Inr [VNode ''p'' [] [Node BR] (Some ''c'')], no_caches\<lparr>linesType := [13 \<mapsto> 100]\<rparr>)"
    using ex_render_line3 by simp
  have r4: "renderLine ex_editor (Single line4) (no_caches\<lparr>linesType := [13 \<mapsto> 100]\<rparr>)
       = (Inl (Error ''No render method defined for line''),
          no_caches\<lparr>linesType := [13 \<mapsto> 100, 14 \<mapsto> 102]\<rparr>)"
    using ex_render_line4 by simp
  show ?thesis
    using missing_render_function_raises[of ex_editor no_caches line4
        "\<lparr>arr_ref = 9, items = [line3]\<rparr>" line3 "[]" "[Single line3]"
        "[VNode ''p'' [] [Node BR] (Some ''c'')]" "no_caches\<lparr>linesType := [13 \<mapsto> 100]\<rparr>"
        "Single line4" "Error ''No render method defined for line''"
        "no_caches\<lparr>linesType := [13 \<mapsto> 100, 14 \<mapsto> 102]\<rparr>" "[Single line3]"
        "[Single line3]" "[VNode ''p'' [] [Node BR] (Some ''c'')]"
        "no_caches\<lparr>linesType := [13 \<mapsto> 100]\<rparr>"]
      r3 r4
    by simp
qed

text \<open>
  C10. After \<open>combineLines\<close> has computed a grouping: every input line whose resolved
  type has a \<open>shouldCombine\<close> predicate is a member of an array unit; every standalone
  \<open>Line\<close> unit is an input line whose type has none; a sequence that consists of one
  combinable line yields exactly one array unit holding that line. \<open>renderLine\<close> sends
  every array unit to \<open>renderMultiLine\<close>, whose node comes from the \<open>renderMultiple\<close>
  function of the first member's type and which fails without it; the type's
  single-line \<open>render\<close> function is not consulted.
\<close>

theorem combinable_lines_grouped:
  assumes "linesCombined c (arr_ref lines) = None"
    and "combineLines editor lines c = (d, c')"
  shows "(\<forall>l \<in> set (items lines). inArray editor c' l \<longrightarrow>
            (\<exists>g. Multi g \<in> set (combined d) \<and> lref l \<in> lref ` set (items g)))
       \<and> (\<forall>l. Single l \<in> set (combined d) \<longrightarrow>
            (\<exists>l' \<in> set (items lines). lref l' = lref l \<and> \<not> inArray editor c' l'))
       \<and> (\<forall>l. items lines = [l] \<and> inArray editor c' l \<longrightarrow>
            (\<exists>g. combined d = [Multi g] \<and> map lref (items g) = [lref l]))
       \<and> (\<forall>g c1. renderLine editor (Multi g) c1 = renderMultiLine editor g c1)
       \<and> (\<forall>g c1 first others. items g = first # others \<longrightarrow>
            fst (renderMultiLine editor g c1) =
              (case renderMultiple (resolvedType editor c1 first) of
                 None \<Rightarrow> Inl (Error ''No render method defined for line'')
               | Some rm \<Rightarrow> Inr (setKey (rm (map (\<lambda>line. (attributes line,
                                renderInline editor (content line), lid line)) (items g)))
                              (lid first))))"
proof (intro conjI allI ballI impI)
  note tg = combineLines_tagged(1)[OF assms]
  note ne = combineLines_tagged(2)[OF assms]
  { fix l assume l: "l \<in> set (items lines)" and a: "inArray editor c' l"
    then have "kept editor c' l" by (simp add: kept_def inArray_def)
    then have "(True, lref l) \<in> set (concat (map tagged (combined d)))"
      using l a unfolding tg by force
    then obtain u where "u \<in> set (combined d)" "(True, lref l) \<in> set (tagged u)" by auto
    then show "\<exists>g. Multi g \<in> set (combined d) \<and> lref l \<in> lref ` set (items g)"
      using tagged_True by blast }
  { fix l assume "Single l \<in> set (combined d)"
    then have "(False, lref l) \<in> set (concat (map tagged (combined d)))" by force
    then show "\<exists>l' \<in> set (items lines). lref l' = lref l \<and> \<not> inArray editor c' l'"
      unfolding tg by auto }
  { fix l assume h: "items lines = [l] \<and> inArray editor c' l"
    then have k: "kept editor c' l" by (simp add: kept_def inArray_def)
    have c: "concat (map tagged (combined d)) = [(True, lref l)]"
      using tg h k by simp
    show "\<exists>g. combined d = [Multi g] \<and> map lref (items g) = [lref l]"
    proof (cases "combined d")
      case Nil
      then show ?thesis using c by simp
    next
      case (Cons u us)
      have u: "members u \<noteq> []" using ne Cons by simp
      then have tu: "tagged u \<noteq> []" by (cases u) auto
      have "tagged u @ concat (map tagged us) = [(True, lref l)]" using c Cons by simp
      then have 1: "tagged u = [(True, lref l)]" and 2: "concat (map tagged us) = []"
        using tu by (auto simp: append_eq_Cons_conv)
      have "us = []"
      proof (cases us)
        case Nil
        then show ?thesis .
      next
        case (Cons v vs)
        have "members v \<noteq> []" using ne \<open>combined d = u # us\<close> Cons by simp
        then have "tagged v \<noteq> []" by (cases v) auto
        then show ?thesis using 2 Cons by simp
      qed
      moreover obtain g where "u = Multi g" "map lref (items g) = [lref l]"
        using 1 by (cases u) (auto simp: comp_def)
      ultimately show ?thesis using Cons by simp
    qed }
  { fix g c1 show "renderLine editor (Multi g) c1 = renderMultiLine editor g c1" by simp }
  { fix g :: LineArr and c1 first others assume "items g = first # others"
    then show "fst (renderMultiLine editor g c1) =
              (case renderMultiple (resolvedType editor c1 first) of
                 None \<Rightarrow> Inl (Error ''No render method defined for line'')
               | Some rm \<Rightarrow> Inr (setKey (rm (map (\<lambda>line. (attributes line,
                                renderInline editor (content line), lid line)) (items g)))
                              (lid first)))"
      by (simp add: renderMultiLine_def resolvedType_def Let_def
          split: prod.splits option.splits) }
qed

theorem combinable_lines_grouped_witness:
  "linesCombined no_caches (arr_ref ex_lines) = None
   \<and> combineLines ex_editor ex_lines no_caches = (ex_data, ex_caches)
   \<and> line5 \<in> set (items ex_lines) \<and> inArray ex_editor ex_caches line5
   \<and> Multi ex_group2 \<in> set (combined ex_data) \<and> lref line5 \<in> lref ` set (items ex_group2)
   \<and> Single line3 \<in> set (combined ex_data) \<and> line3 \<in> set (items ex_lines)
   \<and> \<not> inArray ex_editor ex_caches line3
   \<and> linesCombined no_caches (arr_ref ex_lone) = None
   \<and> combineLines ex_editor ex_lone no_caches = (ex_lone_data, ex_lone_caches)
   \<and> items ex_lone = [line5] \<and> inArray ex_editor ex_lone_caches line5
   \<and> combined ex_lone_data = [Multi \<lparr>arr_ref = 5000, items = [line5]\<rparr>]
   \<and> renderLine ex_editor (Multi ex_group2) ex_caches
       = renderMultiLine ex_editor ex_group2 ex_caches
   \<and> items ex_group2 = line5 # []
   \<and> fst (renderMultiLine ex_editor ex_group2 ex_caches)
       = Inr (VNode ''ul'' [] [Node (VNode ''li'' [] [Node BR] (Some ''d''))] (Some ''d''))"
proof -
  have m: "linesCombined no_caches (arr_ref ex_lines) = None"
    by (simp add: no_caches_def)
  have m': "linesCombined no_caches (arr_ref ex_lone) = None"
    by (simp add: no_caches_def)
  have a: "inArray ex_editor ex_caches line5" "\<not> inArray ex_editor ex_caches line3"
    "inArray ex_editor ex_lone_caches line5"
    by (simp_all add: inArray_def)
  have r: "fst (renderMultiLine ex_editor ex_group2 ex_caches)
       = Inr (VNode ''ul'' [] [Node (VNode ''li'' [] [Node BR] (Some ''d''))] (Some ''d''))"
    by (simp add: renderMultiLine_def getLineType_def ex_caches_def ex_group2_def
        renderInline_def setKey_def list_render_def)
  show ?thesis
    using combinable_lines_grouped[OF m ex_run] combinable_lines_grouped[OF m' ex_lone_run]
      m m' a r ex_run ex_lone_run
    by (simp add: ex_data_def ex_lone_data_def ex_lines_def ex_lone_def ex_group2_def)
qed

section \<open>Properties of the inline composer\<close>

lemma keysLoop_push:
  "length (activeStack s) = idx \<Longrightarrow>
   keysLoop editor attrs keys idx s =
     s\<lparr>activeStack := activeStack s @ map (newFrame attrs) (frameTypes editor keys)\<rparr>"
proof (induction keys arbitrary: idx s)
  case Nil
  then show ?case by simp
next
  case (Cons name keys)
  show ?case
  proof (cases "formats_get editor name")
    case None
    then show ?thesis using Cons.IH[OF Cons.prems] by simp
  next
    case (Some t)
    show ?thesis
    proof (cases "frender (formatTypes editor t)")
      case None
      then show ?thesis using Some Cons.IH[OF Cons.prems] by simp
    next
      case (Some r)
      define s1 where "s1 = insertStackItem editor idx t attrs s"
      have s1: "s1 = s\<lparr>activeStack := activeStack s @ [newFrame attrs t]\<rparr>"
        using Cons.prems by (simp add: s1_def insertStackItem_def newFrame_def)
      then have "length (activeStack s1) = idx + 1" using Cons.prems by simp
      from Cons.IH[OF this]
      show ?thesis using \<open>formats_get editor name = Some t\<close> Some s1 by (simp add: s1_def)
    qed
  qed
qed

lemma keysLoop_keep:
  "(\<And>j. j < length (frameTypes editor keys) \<Longrightarrow>
        idx + j < length (activeStack s)
        \<and> itype (activeStack s ! (idx + j)) = frameTypes editor keys ! j
        \<and> entries (iattributes (activeStack s ! (idx + j))) = entries attrs) \<Longrightarrow>
   keysLoop editor attrs keys idx s = s"
proof (induction keys arbitrary: idx)
  case Nil
  then show ?case by simp
next
  case (Cons name keys)
  show ?case
  proof (cases "formats_get editor name")
    case None
    then show ?thesis using Cons by simp
  next
    case (Some t)
    show ?thesis
    proof (cases "frender (formatTypes editor t)")
      case None
      then show ?thesis using Some Cons by simp
    next
      case (Some r)
      have ft: "frameTypes editor (name # keys) = t # frameTypes editor keys"
        using \<open>formats_get editor name = Some t\<close> Some by simp
      have 0: "idx < length (activeStack s) \<and> itype (activeStack s ! idx) = t
               \<and> entries (iattributes (activeStack s ! idx)) = entries attrs"
        using Cons.prems[of 0] ft by simp
      then have ins: "insertStackItem editor idx t attrs s = s"
        by (simp add: insertStackItem_def)
      have "keysLoop editor attrs keys (idx + 1) s = s"
      proof (rule Cons.IH)
        fix j assume "j < length (frameTypes editor keys)"
        then show "idx + 1 + j < length (activeStack s)
          \<and> itype (activeStack s ! (idx + 1 + j)) = frameTypes editor keys ! j
          \<and> entries (iattributes (activeStack s ! (idx + 1 + j))) = entries attrs"
          using Cons.prems[of "Suc j"] ft by simp
      qed
      then show ?thesis using \<open>formats_get editor name = Some t\<close> Some ins by simp
    qed
  qed
qed

lemma addOrMergeChild_text:
  "addOrMergeChild (xs @ [Str a]) (Str b) = xs @ [Str (a @ b)]"
  by (simp add: addOrMergeChild_def)

lemma addOrMergeChild_node:
  "vtype l = vtype n \<Longrightarrow> propsEqual (props l) (props n) \<Longrightarrow>
   addOrMergeChild (xs @ [Node l]) (Node n) =
     xs @ [Node (VNode (vtype l) (props l) (children l @ children n) (key l))]"
  by (simp add: addOrMergeChild_def)

lemma two_plain_ops:
  assumes "op1 = \<lparr>op_insert = InsStr a, op_attributes = None\<rparr>"
    and "op2 = \<lparr>op_insert = InsStr b, op_attributes = None\<rparr>"
  shows "renderInline editor [op1, op2] =
          [Str (opText None a (Some op2) @ opText (Some op1) b None)]"
  using assms
  by (simp add: renderInline_def renderOp_def opChildren_def collapseStack_def
      collapseLoop.simps addOrMergeChild_def Let_def)

lemma two_attr_ops:
  assumes op1: "op1 = \<lparr>op_insert = InsStr a, op_attributes = Some attrs\<rparr>"
    and op2: "op2 = \<lparr>op_insert = InsStr b, op_attributes = Some attrs'\<rparr>"
    and same: "entries attrs' = entries attrs"
    and ts: "ts = frameTypes editor (sort_key (formats_priority editor) (map fst (entries attrs)))"
    and ne: "ts \<noteq> []"
  shows "opsLoop editor None [op1, op2]
           \<lparr>inlineChildren = [], trailingBreak = True, activeStack = []\<rparr> =
         \<lparr>inlineChildren = [], trailingBreak = False,
          activeStack = map (newFrame attrs) (butlast ts)
            @ [\<lparr>itype = last ts, iattributes = attrs,
                icontent = Some [Str (opText None a (Some op2) @ opText (Some op1) b None)]\<rparr>]\<rparr>"
proof -
  define keys where "keys = sort_key (formats_priority editor) (map fst (entries attrs))"
  define s0 where "s0 = \<lparr>inlineChildren = [], trailingBreak = False, activeStack = []\<rparr>"
  define ta where "ta = opText None a (Some op2)"
  define tb where "tb = opText (Some op1) b None"
  define s1 where "s1 = \<lparr>inlineChildren = [], trailingBreak = False,
      activeStack = map (newFrame attrs) (butlast ts)
        @ [\<lparr>itype = last ts, iattributes = attrs, icontent = Some [Str ta]\<rparr>]\<rparr>"
  have k1: "keysLoop editor attrs keys 0 s0 = s0\<lparr>activeStack := map (newFrame attrs) ts\<rparr>"
    using keysLoop_push[of s0 0 editor attrs keys] ts by (simp add: s0_def keys_def)
  have split: "map (newFrame attrs) ts
                 = map (newFrame attrs) (butlast ts) @ [newFrame attrs (last ts)]"
    using ne by (metis append_butlast_last_id list.simps(8,9) map_append)
  have r1: "renderOp editor None op1 (Some op2)
              \<lparr>inlineChildren = [], trailingBreak = True, activeStack = []\<rparr> = s1"
    using k1 ne
    by (simp add: renderOp_def opChildren_def op1 Let_def keys_def s0_def s1_def ta_def split
        newFrame_def)
  have k2: "keysLoop editor attrs' keys 0 s1 = s1"
  proof (rule keysLoop_keep)
    fix j assume j: "j < length (frameTypes editor keys)"
    then have jl: "j < length ts" using ts keys_def by simp
    have st: "activeStack s1 = map (newFrame attrs) (butlast ts)
        @ [\<lparr>itype = last ts, iattributes = attrs, icontent = Some [Str ta]\<rparr>]"
      by (simp add: s1_def)
    have len: "length (activeStack s1) = length ts" using ne st by simp
    have "itype (activeStack s1 ! j) = ts ! j \<and> iattributes (activeStack s1 ! j) = attrs"
    proof (cases "j < length (butlast ts)")
      case True
      then show ?thesis using st by (simp add: nth_append newFrame_def nth_butlast)
    next
      case False
      then have "j = length ts - 1" using jl by simp
      then show ?thesis using st ne by (simp add: nth_append last_conv_nth)
    qed
    then show "0 + j < length (activeStack s1)
        \<and> itype (activeStack s1 ! (0 + j)) = frameTypes editor keys ! j
        \<and> entries (iattributes (activeStack s1 ! (0 + j))) = entries attrs'"
      using jl len ts keys_def same by simp
  qed
  have keys': "sort_key (formats_priority editor) (map fst (entries attrs')) = keys"
    using same by (simp add: keys_def)
  have r2: "renderOp editor (Some op1) op2 None s1 =
      \<lparr>inlineChildren = [], trailingBreak = False,
          activeStack = map (newFrame attrs) (butlast ts)
            @ [\<lparr>itype = last ts, iattributes = attrs, icontent = Some [Str (ta @ tb)]\<rparr>]\<rparr>"
    using k2 keys'
    by (simp add: renderOp_def opChildren_def op2 Let_def tb_def)
       (simp add: s1_def addOrMergeChild_def)
  show ?thesis using r1 r2 by (simp add: ta_def tb_def)
qed

text \<open>
  C7. A text operation whose only attribute names a format that resolves but has no
  \<open>render\<close> function: no frame is pushed and nothing is raised, but the stack is empty,
  so the operation's children are appended nowhere and the text is lost. The same text
  without attributes is rendered.
\<close>

theorem unrenderable_format_drops_text:
  "formats_get ex_editor ''foo'' = Some 202
   \<and> frender (formatTypes ex_editor 202) = None
   \<and> renderInline ex_editor [text_op ''x'' (Some foo_attrs)] = []
   \<and> renderInline ex_editor [text_op ''x'' None] = [Str ''x'']"
  by (simp add: renderInline_def renderOp_def opChildren_def collapseStack_def
      collapseLoop.simps addOrMergeChild_def Let_def text_op_def foo_attrs_def foo_def)

text \<open>
  C8. One text operation with the attributes \<open>{bold: true, link: "u"}\<close>, both formats
  having a \<open>render\<close> function and \<open>link\<close> the lower priority: the bold format renders the
  text alone, the link format renders the bold node alone, and the link node is the
  whole result.
\<close>

theorem renderInline_nesting:
  assumes "formats_get editor ''bold'' = Some b"
    and "formats_get editor ''link'' = Some l"
    and "frender (formatTypes editor b) = Some rb"
    and "frender (formatTypes editor l) = Some rl"
    and "formats_priority editor ''link'' < formats_priority editor ''bold''"
    and "entries attrs = [(''bold'', JBool True), (''link'', JStr ''u'')]"
    and "rb attrs [Str (opText None t None)] = Some nb"
    and "rl attrs [Node nb] = Some nl"
  shows "renderInline editor [\<lparr>op_insert = InsStr t, op_attributes = Some attrs\<rparr>] = [Node nl]"
proof -
  have sorted: "sort_key (formats_priority editor) (map fst (entries attrs))
                  = [''link'', ''bold'']"
    using assms(5,6) by simp
  define f1 where "f1 = \<lparr>itype = l, iattributes = attrs, icontent = None\<rparr>"
  define f2 where
    "f2 = \<lparr>itype = b, iattributes = attrs, icontent = Some [Str (opText None t None)]\<rparr>"
  have c2: "collapseLoop editor 0 [f1, f2] None = ([], Some [Node nl])"
    using assms by (simp add: collapseLoop.simps f1_def f2_def)
  have "opsLoop editor None [\<lparr>op_insert = InsStr t, op_attributes = Some attrs\<rparr>]
          \<lparr>inlineChildren = [], trailingBreak = True, activeStack = []\<rparr>
        = \<lparr>inlineChildren = [], trailingBreak = False, activeStack = [f1, f2]\<rparr>"
    using assms(1-4) sorted
    by (simp add: renderOp_def opChildren_def insertStackItem_def Let_def f1_def f2_def)
  then show ?thesis
    using c2 by (simp add: renderInline_def collapseStack_def Let_def)
qed

theorem renderInline_nesting_witness:
  "formats_priority ex_editor ''link'' < formats_priority ex_editor ''bold''
   \<and> renderInline ex_editor [\<lparr>op_insert = InsStr ''x'', op_attributes = Some bold_link_attrs\<rparr>]
     = [Node (VNode ''a'' [(''href'', JStr ''u'')]
               [Node (VNode ''strong'' [] [Str ''x''] None)] None)]"
  using renderInline_nesting[of ex_editor 200 201 bold_render link_render
      bold_link_attrs "''x''" "VNode ''strong'' [] [Str ''x''] None"
      "VNode ''a'' [(''href'', JStr ''u'')] [Node (VNode ''strong'' [] [Str ''x''] None)] None"]
  by (simp add: bold_def link_def bold_link_attrs_def bold_render_def link_render_def)

lemma collapseLoop_merge:
  assumes "frender (formatTypes editor (itype item)) = Some rf"
    and "icontent item = Some c" and "idx \<le> length stack"
    and "rf (iattributes item) (foldl addOrMergeChild c cs) = Some node"
  shows "collapseLoop editor idx (stack @ [item]) (Some cs)
           = collapseLoop editor idx stack (Some [Node node])"
  using assms by (subst collapseLoop.simps) (simp add: Let_def)

lemma collapseLoop_top:
  assumes "frender (formatTypes editor (itype inner)) = Some rt"
    and "rt (iattributes inner) (combineChildren (icontent inner) None) = Some nt"
  shows "collapseLoop editor (length stack) (stack @ [inner]) None = (stack, Some [Node nt])"
proof -
  have "collapseLoop editor (length stack) (stack @ [inner]) None
          = collapseLoop editor (length stack) stack (Some [Node nt])"
    using assms by (subst collapseLoop.simps) (simp add: Let_def)
  also have "\<dots> = (stack, Some [Node nt])"
    by (subst collapseLoop.simps) simp
  finally show ?thesis .
qed

lemma collapseStack_parent:
  assumes st: "activeStack s = below @ [parent, inner]"
    and r: "frender (formatTypes editor (itype inner)) = Some rt"
    and n: "rt (iattributes inner) (combineChildren (icontent inner) None) = Some nt"
  shows "collapseStack editor (length below + 1) s =
           s\<lparr>activeStack := below @
               [parent\<lparr>icontent := Some ((case icontent parent of None \<Rightarrow> [] | Some pc \<Rightarrow> pc)
                                           @ [Node nt])\<rparr>]\<rparr>"
proof -
  have "collapseLoop editor (length (below @ [parent])) ((below @ [parent]) @ [inner]) None
          = (below @ [parent], Some [Node nt])"
    by (rule collapseLoop_top[OF r n])
  then have "collapseLoop editor (length below + 1) (activeStack s) None
          = (below @ [parent], Some [Node nt])"
    using st by simp
  then show ?thesis
    by (simp add: collapseStack_def split: option.splits)
qed

lemma collapseStack_final:
  assumes st: "activeStack s = [inner]"
    and r: "frender (formatTypes editor (itype inner)) = Some rt"
    and n: "rt (iattributes inner) (combineChildren (icontent inner) None) = Some nt"
  shows "collapseStack editor 0 s =
           s\<lparr>inlineChildren := inlineChildren s @ [Node nt], activeStack := []\<rparr>"
proof -
  have "collapseLoop editor (length ([] :: InlineStackItem list)) ([] @ [inner]) None
          = ([], Some [Node nt])"
    by (rule collapseLoop_top[OF r n])
  then have "collapseLoop editor 0 (activeStack s) None = ([], Some [Node nt])"
    using st by simp
  then show ?thesis
    by (simp add: collapseStack_def)
qed

text \<open>
  C9 (as amended). \<open>addOrMergeChild\<close> concatenates a string onto a last child that is a
  string, and concatenates the child list of a node onto that of a last child that is a
  node of identical type and equal props (the same properties with equal values, in
  any order). \<open>combineChildren\<close> applies it wherever an operation's own children join the
  final list or the content of the frame on top of the stack: two consecutive text
  operations without attributes yield one text child, and two consecutive text
  operations with equal attributes that open at least one frame leave one text child,
  the concatenation, in the innermost frame. It also applies it where the finalized
  children \<open>cs\<close> of inner frames join the content \<open>c\<close> of the frame being finalized: the
  frame's \<open>render\<close> function receives \<open>c\<close> with the members of \<open>cs\<close> merged in one after the
  other. The node that \<open>collapseStack\<close> makes of the frame on top of the stack is
  appended as it is to the content of the parent frame, or to the final list when
  there is no parent, whatever the last child there is.
\<close>

theorem sibling_merge:
  "addOrMergeChild (xs @ [Str a]) (Str b) = xs @ [Str (a @ b)]
   \<and> (vtype l = vtype n \<and> propsEqual (props l) (props n) \<longrightarrow>
        addOrMergeChild (xs @ [Node l]) (Node n) =
          xs @ [Node (VNode (vtype l) (props l) (children l @ children n) (key l))])
   \<and> (op1 = \<lparr>op_insert = InsStr s, op_attributes = None\<rparr>
        \<and> op2 = \<lparr>op_insert = InsStr t, op_attributes = None\<rparr> \<longrightarrow>
        renderInline editor [op1, op2] =
          [Str (opText None s (Some op2) @ opText (Some op1) t None)])
   \<and> (op3 = \<lparr>op_insert = InsStr s, op_attributes = Some attrs\<rparr>
        \<and> op4 = \<lparr>op_insert = InsStr t, op_attributes = Some attrs'\<rparr>
        \<and> entries attrs' = entries attrs
        \<and> ts = frameTypes editor (sort_key (formats_priority editor) (map fst (entries attrs)))
        \<and> ts \<noteq> [] \<longrightarrow>
        opsLoop editor None [op3, op4]
           \<lparr>inlineChildren = [], trailingBreak = True, activeStack = []\<rparr> =
         \<lparr>inlineChildren = [], trailingBreak = False,
          activeStack = map (newFrame attrs) (butlast ts)
            @ [\<lparr>itype = last ts, iattributes = attrs,
                icontent = Some [Str (opText None s (Some op4) @ opText (Some op3) t None)]\<rparr>]\<rparr>)
   \<and> (frender (formatTypes editor (itype item)) = Some rf
        \<and> icontent item = Some c \<and> idx \<le> length stack
        \<and> rf (iattributes item) (foldl addOrMergeChild c cs) = Some node \<longrightarrow>
        collapseLoop editor idx (stack @ [item]) (Some cs)
          = collapseLoop editor idx stack (Some [Node node]))
   \<and> (activeStack s1 = below @ [parent, inner]
        \<and> frender (formatTypes editor (itype inner)) = Some rt
        \<and> rt (iattributes inner) (combineChildren (icontent inner) None) = Some nt \<longrightarrow>
        collapseStack editor (length below + 1) s1 =
          s1\<lparr>activeStack := below @
              [parent\<lparr>icontent := Some ((case icontent parent of None \<Rightarrow> [] | Some pc \<Rightarrow> pc)
                                          @ [Node nt])\<rparr>]\<rparr>)
   \<and> (activeStack s2 = [sole]
        \<and> frender (formatTypes editor (itype sole)) = Some ro
        \<and> ro (iattributes sole) (combineChildren (icontent sole) None) = Some nd \<longrightarrow>
        collapseStack editor 0 s2 =
          s2\<lparr>inlineChildren := inlineChildren s2 @ [Node nd], activeStack := []\<rparr>)"
proof (intro conjI impI)
  show "addOrMergeChild (xs @ [Str a]) (Str b) = xs @ [Str (a @ b)]"
    by (rule addOrMergeChild_text)
next
  assume "vtype l = vtype n \<and> propsEqual (props l) (props n)"
  then show "addOrMergeChild (xs @ [Node l]) (Node n) =
          xs @ [Node (VNode (vtype l) (props l) (children l @ children n) (key l))]"
    by (simp add: addOrMergeChild_node)
next
  assume "op1 = \<lparr>op_insert = InsStr s, op_attributes = None\<rparr>
        \<and> op2 = \<lparr>op_insert = InsStr t, op_attributes = None\<rparr>"
  then show "renderInline editor [op1, op2] =
          [Str (opText None s (Some op2) @ opText (Some op1) t None)]"
    using two_plain_ops[of op1 s op2 t editor] by simp
next
  assume h: "op3 = \<lparr>op_insert = InsStr s, op_attributes = Some attrs\<rparr>
        \<and> op4 = \<lparr>op_insert = InsStr t, op_attributes = Some attrs'\<rparr>
        \<and> entries attrs' = entries attrs
        \<and> ts = frameTypes editor (sort_key (formats_priority editor) (map fst (entries attrs)))
        \<and> ts \<noteq> []"
  show "opsLoop editor None [op3, op4]
           \<lparr>inlineChildren = [], trailingBreak = True, activeStack = []\<rparr> =
         \<lparr>inlineChildren = [], trailingBreak = False,
          activeStack = map (newFrame attrs) (butlast ts)
            @ [\<lparr>itype = last ts, iattributes = attrs,
                icontent = Some [Str (opText None s (Some op4) @ opText (Some op3) t None)]\<rparr>]\<rparr>"
    by (rule two_attr_ops[OF conjunct1[OF h] conjunct1[OF conjunct2[OF h]]
          conjunct1[OF conjunct2[OF conjunct2[OF h]]]
          conjunct1[OF conjunct2[OF conjunct2[OF conjunct2[OF h]]]]
          conjunct2[OF conjunct2[OF conjunct2[OF conjunct2[OF h]]]]])
next
  assume h: "frender (formatTypes editor (itype item)) = Some rf
        \<and> icontent item = Some c \<and> idx \<le> length stack
        \<and> rf (iattributes item) (foldl addOrMergeChild c cs) = Some node"
  show "collapseLoop editor idx (stack @ [item]) (Some cs)
          = collapseLoop editor idx stack (Some [Node node])"
    by (rule collapseLoop_merge[OF conjunct1[OF h] conjunct1[OF conjunct2[OF h]]
          conjunct1[OF conjunct2[OF conjunct2[OF h]]]
          conjunct2[OF conjunct2[OF conjunct2[OF h]]]])
next
  assume h: "activeStack s1 = below @ [parent, inner]
        \<and> frender (formatTypes editor (itype inner)) = Some rt
        \<and> rt (iattributes inner) (combineChildren (icontent inner) None) = Some nt"
  show "collapseStack editor (length below + 1) s1 =
          s1\<lparr>activeStack := below @
              [parent\<lparr>icontent := Some ((case icontent parent of None \<Rightarrow> [] | Some pc \<Rightarrow> pc)
                                          @ [Node nt])\<rparr>]\<rparr>"
    by (rule collapseStack_parent[OF conjunct1[OF h] conjunct1[OF conjunct2[OF h]]
          conjunct2[OF conjunct2[OF h]]])
next
  assume h: "activeStack s2 = [sole]
        \<and> frender (formatTypes editor (itype sole)) = Some ro
        \<and> ro (iattributes sole) (combineChildren (icontent sole) None) = Some nd"
  show "collapseStack editor 0 s2 =
          s2\<lparr>inlineChildren := inlineChildren s2 @ [Node nd], activeStack := []\<rparr>"
    by (rule collapseStack_final[OF conjunct1[OF h] conjunct1[OF conjunct2[OF h]]
          conjunct2[OF conjunct2[OF h]]])
qed

text \<open>
  Instances: two props objects with the same properties in another order are merged;
  a link frame that holds two bold nodes is finalized with a third bold node, which
  is merged into the second; a bold node is pushed next to a bold node onto the
  content of the link frame, and onto the final list.
\<close>

theorem sibling_merge_witness:
  "addOrMergeChild ([] @ [Str ''a'']) (Str ''c'') = [] @ [Str (''a'' @ ''c'')]
   \<and> vtype link_ab = vtype link_ba \<and> propsEqual (props link_ab) (props link_ba)
   \<and> props link_ab \<noteq> props link_ba
   \<and> addOrMergeChild ([] @ [Node link_ab]) (Node link_ba)
       = [Node (VNode ''a'' [(''href'', JStr ''u''), (''title'', JStr ''t'')]
                 [Str ''a'', Str ''c''] None)]
   \<and> renderInline ex_editor [text_op ''a'' None, text_op ''c'' None] = [Str ''ac'']
   \<and> frameTypes ex_editor (sort_key (formats_priority ex_editor) (map fst (entries bold_attrs)))
       = [200]
   \<and> opsLoop ex_editor None [text_op ''a'' (Some bold_attrs), text_op ''c'' (Some bold_attrs)]
        \<lparr>inlineChildren = [], trailingBreak = True, activeStack = []\<rparr>
       = \<lparr>inlineChildren = [], trailingBreak = False,
          activeStack = [\<lparr>itype = 200, iattributes = bold_attrs,
                          icontent = Some [Str ''ac'']\<rparr>]\<rparr>
   \<and> collapseLoop ex_editor 0
        ([] @ [\<lparr>itype = 201, iattributes = bold_link_attrs,
                 icontent = Some [Node (VNode ''strong'' [] [Str ''a''] None),
                                  Node (VNode ''strong'' [] [Str ''x''] None)]\<rparr>])
        (Some [Node (VNode ''strong'' [] [Str ''c''] None)])
       = ([], Some [Node (VNode ''a'' [(''href'', JStr ''u'')]
                          [Node (VNode ''strong'' [] [Str ''a''] None),
                           Node (VNode ''strong'' [] [Str ''x'', Str ''c''] None)] None)])
   \<and> collapseStack ex_editor (length ([] :: InlineStackItem list) + 1)
        \<lparr>inlineChildren = [], trailingBreak = False,
         activeStack = [] @
           [\<lparr>itype = 201, iattributes = bold_link_attrs,
             icontent = Some [Node (VNode ''strong'' [] [Str ''a''] None)]\<rparr>,
            \<lparr>itype = 200, iattributes = heavy_link_attrs, icontent = Some [Str ''x'']\<rparr>]\<rparr>
       = \<lparr>inlineChildren = [], trailingBreak = False,
          activeStack =
           [\<lparr>itype = 201, iattributes = bold_link_attrs,
             icontent = Some [Node (VNode ''strong'' [] [Str ''a''] None),
                              Node (VNode ''strong'' [] [Str ''x''] None)]\<rparr>]\<rparr>
   \<and> collapseStack ex_editor 0
        \<lparr>inlineChildren = [Node (VNode ''strong'' [] [Str ''a''] None)], trailingBreak = False,
         activeStack = [\<lparr>itype = 200, iattributes = bold_attrs, icontent = Some [Str ''c'']\<rparr>]\<rparr>
       = \<lparr>inlineChildren = [Node (VNode ''strong'' [] [Str ''a''] None),
                            Node (VNode ''strong'' [] [Str ''c''] None)],
          trailingBreak = False, activeStack = []\<rparr>
   \<and> renderInline ex_editor
        [text_op ''a'' (Some bold_link_attrs), text_op ''x'' (Some heavy_link_attrs),
         text_op ''c'' (Some bold_link_attrs)]
       = [Node (VNode ''a'' [(''href'', JStr ''u'')]
                 [Node (VNode ''strong'' [] [Str ''a''] None),
                  Node (VNode ''strong'' [] [Str ''x'', Str ''c''] None)] None)]"
proof -
  have ft: "frameTypes ex_editor
              (sort_key (formats_priority ex_editor) (map fst (entries bold_attrs))) = [200]"
    by (simp add: bold_attrs_def bold_def)
  have pe: "vtype link_ab = vtype link_ba" "propsEqual (props link_ab) (props link_ba)"
    "props link_ab \<noteq> props link_ba"
    by (simp_all add: link_ab_def link_ba_def propsEqual_def)
  have run: "renderInline ex_editor
        [text_op ''a'' (Some bold_link_attrs), text_op ''x'' (Some heavy_link_attrs),
         text_op ''c'' (Some bold_link_attrs)]
       = [Node (VNode ''a'' [(''href'', JStr ''u'')]
                 [Node (VNode ''strong'' [] [Str ''a''] None),
                  Node (VNode ''strong'' [] [Str ''x'', Str ''c''] None)] None)]"
    by (simp add: renderInline_def renderOp_def opChildren_def collapseStack_def
        insertStackItem_def collapseLoop.simps addOrMergeChild_def propsEqual_def Let_def
        text_op_def bold_link_attrs_def heavy_link_attrs_def bold_def link_def bold_render_def
        link_render_def)
  have e: "collapseLoop ex_editor 0 []
             (Some [Node (VNode ''a'' [(''href'', JStr ''u'')]
                          [Node (VNode ''strong'' [] [Str ''a''] None),
                           Node (VNode ''strong'' [] [Str ''x'', Str ''c''] None)] None)])
           = ([], Some [Node (VNode ''a'' [(''href'', JStr ''u'')]
                          [Node (VNode ''strong'' [] [Str ''a''] None),
                           Node (VNode ''strong'' [] [Str ''x'', Str ''c''] None)] None)])"
    by (subst collapseLoop.simps) simp
  show ?thesis
    using sibling_merge[where xs = "[]" and a = "''a''" and b = "''c''"
        and l = link_ab and n = link_ba
        and ?op1.0 = "text_op ''a'' None" and s = "''a''"
        and ?op2.0 = "text_op ''c'' None" and t = "''c''" and editor = ex_editor
        and ?op3.0 = "text_op ''a'' (Some bold_attrs)" and attrs = bold_attrs
        and ?op4.0 = "text_op ''c'' (Some bold_attrs)" and attrs' = bold_attrs and ts = "[200]"
        and item = "\<lparr>itype = 201, iattributes = bold_link_attrs,
                 icontent = Some [Node (VNode ''strong'' [] [Str ''a''] None),
                                  Node (VNode ''strong'' [] [Str ''x''] None)]\<rparr>"
        and rf = link_render
        and c = "[Node (VNode ''strong'' [] [Str ''a''] None),
                  Node (VNode ''strong'' [] [Str ''x''] None)]"
        and cs = "[Node (VNode ''strong'' [] [Str ''c''] None)]"
        and idx = 0 and stack = "[]"
        and node = "VNode ''a'' [(''href'', JStr ''u'')]
                          [Node (VNode ''strong'' [] [Str ''a''] None),
                           Node (VNode ''strong'' [] [Str ''x'', Str ''c''] None)] None"
        and ?s1.0 = "\<lparr>inlineChildren = [], trailingBreak = False,
             activeStack = [] @
               [\<lparr>itype = 201, iattributes = bold_link_attrs,
                 icontent = Some [Node (VNode ''strong'' [] [Str ''a''] None)]\<rparr>,
                \<lparr>itype = 200, iattributes = heavy_link_attrs, icontent = Some [Str ''x'']\<rparr>]\<rparr>"
        and below = "[]"
        and parent = "\<lparr>itype = 201, iattributes = bold_link_attrs,
                 icontent = Some [Node (VNode ''strong'' [] [Str ''a''] None)]\<rparr>"
        and inner = "\<lparr>itype = 200, iattributes = heavy_link_attrs, icontent = Some [Str ''x'']\<rparr>"
        and rt = bold_render and nt = "VNode ''strong'' [] [Str ''x''] None"
        and ?s2.0 = "\<lparr>inlineChildren = [Node (VNode ''strong'' [] [Str ''a''] None)],
             trailingBreak = False,
             activeStack = [\<lparr>itype = 200, iattributes = bold_attrs,
                              icontent = Some [Str ''c'']\<rparr>]\<rparr>"
        and sole = "\<lparr>itype = 200, iattributes = bold_attrs, icontent = Some [Str ''c'']\<rparr>"
        and ro = bold_render and nd = "VNode ''strong'' [] [Str ''c''] None"]
      ft pe run e
    by (simp add: text_op_def link_ab_def link_ba_def bold_def link_def bold_render_def
        link_render_def bold_link_attrs_def addOrMergeChild_def propsEqual_def)
qed

text \<open>
  The claim as written covers every child appended to the final list. Two bold runs
  separated by an embed that has no renderer: the first bold node is pushed when the
  embed collapses the stack, the second at the end of the run, and they stay two
  adjacent nodes of identical type and equal props.
\<close>

theorem sibling_merge_counterexample:
  "renderInline ex_editor
      [text_op ''a'' (Some bold_attrs), image_op, text_op ''c'' (Some bold_attrs)]
     = [Node (VNode ''strong'' [] [Str ''a''] None), Node (VNode ''strong'' [] [Str ''c''] None)]
   \<and> renderInline ex_editor
      [text_op ''a'' (Some bold_attrs), image_op, text_op ''c'' (Some bold_attrs)]
     \<noteq> [Node (VNode ''strong'' [] [Str ''a'', Str ''c''] None)]"
  by (simp add: renderInline_def renderOp_def opChildren_def collapseStack_def
      insertStackItem_def collapseLoop.simps addOrMergeChild_def Let_def text_op_def
      bold_attrs_def bold_def bold_render_def image_op_def)


section \<open>Properties of the reconciler\<close>

subsection \<open>What the two scans of the range diff return\<close>



subsection \<open>The windows of \<open>renderChanges\<close>\<close>







subsection \<open>The type of a line does not depend on the state of the caches\<close>

lemma sequence_map_Inr: "sequence (map Inr ys) = Inr ys"
  by (induction ys) simp_all

lemma sequence_Inr_D: "sequence xs = Inr ys \<Longrightarrow> xs = map Inr ys"
proof (induction xs arbitrary: ys)
  case Nil
  then show ?case by simp
next
  case (Cons x xs)
  show ?case
  proof (cases x)
    case (Inl e)
    then show ?thesis using Cons.prems by simp
  next
    case (Inr v)
    show ?thesis
    proof (cases "sequence xs")
      case (Inl e)
      then show ?thesis using Cons.prems \<open>x = Inr v\<close> by simp
    next
      case inr: (Inr zs)
      then have "ys = v # zs" using Cons.prems Inr by simp
      then show ?thesis using Cons.IH[OF inr] Inr by simp
    qed
  qed
qed

lemma sequence_Inr: "sequence xs = Inr ys \<longleftrightarrow> xs = map Inr ys"
  using sequence_Inr_D sequence_map_Inr by blast


















subsection \<open>The full render when the grouping is memoized\<close>








subsection \<open>Incremental and full render\<close>


subsection \<open>The concrete edit\<close>

lemma ex_more [simp]:
  "lref line6 = 6" "lref line7 = 7"
  "aref (attributes line6) = 16" "aref (attributes line7) = 17"
  "lid line6 = ''e''" "lid line7 = ''f''"
  "content line6 = []" "content line7 = [text_op ''x'' None]"
  "lines_findByAttributes ex_editor (attributes line6) = 100"
  "lines_findByAttributes ex_editor (attributes line7) = 100"
  "line3 \<noteq> line6" "line7 \<noteq> line6"
  by (simp_all add: line3_def line6_def line7_def ex_editor_def)





lemma ex_docs [simp]:
  "doc_lines ex_old_doc = ex_first" "doc_lines ex_new_doc = ex_second"
  "getLineRange ex_new_doc = ex_range" "getLineBy ex_new_doc = ex_by"
  "items ex_first = [line5, line3, line6]" "items ex_second = [line5, line7, line6]"
  "arr_ref ex_first = 8" "arr_ref ex_second = 9"
  "items lone_group = [line5]"
  "combined ex_first_data = [Multi lone_group, Single line3, Single line6]"
  "combined ex_second_data = [Multi lone_group, Single line7, Single line6]"
  "byKey ex_second_data
     = [''d'' \<mapsto> Multi lone_group, ''f'' \<mapsto> Single line7, ''e'' \<mapsto> Single line6]"
  by (simp_all add: ex_old_doc_def ex_new_doc_def ex_first_def ex_second_def lone_group_def
      ex_first_data_def ex_second_data_def)

lemma ex_screen_fields [simp]:
  "childNodes ex_screen = [ex_ul, ex_p, ex_pe]" "doc ex_screen = ex_new_doc"
  "caches ex_screen = ex_first_caches"
  by (simp_all add: ex_screen_def)

















end
